theory Spec2Isabelle
  imports Complex_Main
begin

section \<open>Errors and tokens\<close>

text \<open>
  The program raises two kinds of exception of its own, \<open>ParseError\<close> and \<open>EvalError\<close>;
  the example and test backends raise \<open>std::runtime_error\<close>. Every throw site of the source is
  an \<open>Inl\<close> branch of the model; the message is kept (without quote characters) so that the
  throw site can be told from the value.
\<close>

datatype error = ParseError string | EvalError string | RuntimeError string

text \<open>
  \<open>TokKind\<close> has the same enumerators in \<open>tsexpr/token.hpp\<close> and in \<open>tsexpr/expr.hpp\<close>; one
  datatype serves both namespaces.
\<close>

datatype TokKind =
  Ident | Number | Comma | Plus | Minus | Star | Slash | LParen | RParen | Assign | End
  | Func | Neg

text \<open>
  A token. The type \<open>'d\<close> stands for \<open>double\<close>; no arithmetic law is assumed of it. In
  namespace \<open>tsexpr\<close> the struct has no \<open>arity\<close> field and the argument count of a \<open>Func\<close>
  token is written into \<open>number\<close> with \<open>static_cast<double>\<close> and read back with
  \<open>static_cast<int>\<close>; that round trip is exact for every \<open>int\<close>, and the model keeps the
  count in the field \<open>arity\<close> for both namespaces.
\<close>

record 'd Token =
  kind :: TokKind
  text' :: string
  number :: 'd
  arity :: int

definition tok :: "TokKind \<Rightarrow> ('d::zero) Token" where
  "tok k = \<lparr>kind = k, text' = [], number = 0, arity = 0\<rparr>"

section \<open>Character classes (the C locale)\<close>

definition isalpha :: "char \<Rightarrow> bool" where
  "isalpha c = (let n = (of_char c :: nat) in (65 \<le> n \<and> n \<le> 90) \<or> (97 \<le> n \<and> n \<le> 122))"

definition isdigit :: "char \<Rightarrow> bool" where
  "isdigit c = (let n = (of_char c :: nat) in 48 \<le> n \<and> n \<le> 57)"

definition isalnum :: "char \<Rightarrow> bool" where
  "isalnum c = (isalpha c \<or> isdigit c)"

definition isspace :: "char \<Rightarrow> bool" where
  "isspace c = (let n = (of_char c :: nat) in n = 32 \<or> (9 \<le> n \<and> n \<le> 13))"

definition is_ident_start :: "char \<Rightarrow> bool" where
  "is_ident_start c = (isalpha c \<or> c = CHR ''_'')"

definition is_ident_char :: "char \<Rightarrow> bool" where
  "is_ident_char c = (isalnum c \<or> c = CHR ''_'')"

section \<open>The lexer of namespace tsexpr (lexer.cpp)\<close>

text \<open>
  The lexer state \<open>(s_, i_)\<close> is modelled by the unread rest of the input, \<open>drop i_ s_\<close>.
  \<open>std::strtod\<close> is a parameter: \<open>strtod s\<close> returns the value scanned at the start of \<open>s\<close>
  and the number of characters consumed (\<open>end - begin\<close>), which is 0 when nothing was scanned.
\<close>

type_synonym 'd strtod = "string \<Rightarrow> 'd \<times> nat"

fun skip_ws :: "string \<Rightarrow> string" where
  "skip_ws [] = []"
| "skip_ws (c # cs) = (if isspace c then skip_ws cs else c # cs)"

text \<open>The \<open>switch (c)\<close> on the single-character tokens; \<open>None\<close> is \<open>default: break\<close>.\<close>

definition punct :: "char \<Rightarrow> TokKind option" where
  "punct c =
    (if c = CHR ''+'' then Some Plus
     else if c = CHR ''-'' then Some Minus
     else if c = CHR ''*'' then Some Star
     else if c = CHR ''/'' then Some Slash
     else if c = CHR ''('' then Some LParen
     else if c = CHR '')'' then Some RParen
     else if c = CHR '','' then Some Comma
     else if c = CHR ''='' then Some Assign
     else None)"

definition Lexer_next :: "('d::zero) strtod \<Rightarrow> string \<Rightarrow> error + ('d Token \<times> string)" where
  "Lexer_next strtod s =
    (case skip_ws s of
       [] \<Rightarrow> Inr (tok End, [])
     | c # cs \<Rightarrow>
         (case punct c of
            Some k \<Rightarrow> Inr (tok k, cs)
          | None \<Rightarrow>
              if c = CHR 0x60 then
                (case dropWhile (\<lambda>x. x \<noteq> CHR 0x60) cs of
                   [] \<Rightarrow> Inl (ParseError ''Unterminated backtick identifier'')
                 | q # rest \<Rightarrow>
                     Inr ((tok Ident)\<lparr>text' := takeWhile (\<lambda>x. x \<noteq> CHR 0x60) cs\<rparr>, rest))
              else if is_ident_start c then
                Inr ((tok Ident)\<lparr>text' := c # takeWhile is_ident_char cs\<rparr>,
                     dropWhile is_ident_char cs)
              else if isdigit c \<or> c = CHR ''.'' then
                (case strtod (c # cs) of
                   (v, n) \<Rightarrow>
                     if n = 0 then Inl (ParseError ''Invalid number'')
                     else Inr ((tok Number)\<lparr>number := v\<rparr>, drop n (c # cs)))
              else Inl (ParseError (''Unexpected character: '' @ [c]))))"

section \<open>The shunting-yard parser of namespace tsexpr (parser.cpp)\<close>

definition precedence :: "TokKind \<Rightarrow> int" where
  "precedence k =
    (if k = Neg then 4
     else if k = Star \<or> k = Slash then 3
     else if k = Plus \<or> k = Minus then 2
     else 0)"

definition is_right_assoc :: "TokKind \<Rightarrow> bool" where
  "is_right_assoc k = (k = Neg)"

definition is_op :: "TokKind \<Rightarrow> bool" where
  "is_op k = (k = Plus \<or> k = Minus \<or> k = Star \<or> k = Slash \<or> k = Neg)"

record FnFrame =
  name :: string
  fn_argc :: int
  saw_any_arg :: bool

text \<open>
  The local variables of the parsing loop. The vectors \<open>opstack\<close> and \<open>fnstack\<close> are lists
  whose head is \<open>back()\<close>; \<open>output'\<close> is in emission order. The same record, with another frame
  type, holds the locals of \<open>ts::expr::compile\<close>, whose frame stack is called \<open>func_stack\<close> there.
\<close>

record ('d, 'f) shunt =
  output' :: "'d Token list"
  opstack :: "'d Token list"
  fnstack :: "'f list"
  expect_operand :: bool

definition shunt_init :: "('d, 'f) shunt" where
  "shunt_init = \<lparr>output' = [], opstack = [], fnstack = [], expect_operand = True\<rparr>"

text \<open>\<open>while (!opstack.empty() && opstack.back().kind != LParen) { output.push_back(...); pop }\<close>\<close>

fun pop_to_lparen :: "'d Token list \<Rightarrow> 'd Token list \<Rightarrow> 'd Token list \<times> 'd Token list" where
  "pop_to_lparen [] out = ([], out)"
| "pop_to_lparen (t # ts) out =
     (if kind t = LParen then (t # ts, out) else pop_to_lparen ts (out @ [t]))"

text \<open>The operator loop: pops while the top is an operator and \<open>pop_it\<close> holds.\<close>

fun pop_ops :: "TokKind \<Rightarrow> 'd Token list \<Rightarrow> 'd Token list \<Rightarrow> 'd Token list \<times> 'd Token list" where
  "pop_ops curk [] out = ([], out)"
| "pop_ops curk (tp # rest) out =
     (if is_op (kind tp) \<and>
         (if is_right_assoc curk then precedence (kind tp) > precedence curk
          else precedence (kind tp) \<ge> precedence curk)
      then pop_ops curk rest (out @ [tp])
      else (tp # rest, out))"

text \<open>\<open>if (!fnstack.empty()) fnstack.back().saw_any_arg = true;\<close>\<close>

definition mark_arg :: "FnFrame list \<Rightarrow> FnFrame list" where
  "mark_arg fs = (case fs of [] \<Rightarrow> [] | f # r \<Rightarrow> f\<lparr>saw_any_arg := True\<rparr> # r)"

text \<open>
  One iteration of the loop for a token that is not an identifier, up to (not including) the
  final \<open>t = next_token(); continue;\<close>.
\<close>

definition to_rpn_token :: "'d Token \<Rightarrow> ('d, FnFrame) shunt \<Rightarrow> error + ('d, FnFrame) shunt" where
  "to_rpn_token t st =
    (if kind t = Number then
       Inr (st\<lparr>output' := output' st @ [t], expect_operand := False,
                fnstack := mark_arg (fnstack st)\<rparr>)
     else if kind t = LParen then
       Inr (st\<lparr>opstack := t # opstack st, expect_operand := True\<rparr>)
     else if kind t = Comma then
       (case pop_to_lparen (opstack st) (output' st) of
          (ops, out) \<Rightarrow>
            if ops = [] then Inl (ParseError ''Comma not within function call'')
            else
              (case fnstack st of
                 [] \<Rightarrow> Inl (ParseError ''Internal error: comma with no function frame'')
               | f # fs \<Rightarrow>
                   Inr (st\<lparr>output' := out, opstack := ops,
                            fnstack := f\<lparr>fn_argc := fn_argc f + 1\<rparr> # fs,
                            expect_operand := True\<rparr>)))
     else if kind t = RParen then
       (case pop_to_lparen (opstack st) (output' st) of
          (ops, out) \<Rightarrow>
            (case ops of
               [] \<Rightarrow> Inl (ParseError ''Mismatched )'')
             | lp # ops1 \<Rightarrow>
                 if ops1 \<noteq> [] \<and> kind (hd ops1) = Func then
                   (case fnstack st of
                      [] \<Rightarrow> Inl (ParseError ''Internal error: function close with no frame'')
                    | frame # fs \<Rightarrow>
                        let argc = (if saw_any_arg frame then fn_argc frame + 1 else 0) in
                        Inr (st\<lparr>output' := out @ [(hd ops1)\<lparr>arity := argc\<rparr>],
                                 opstack := tl ops1,
                                 fnstack := mark_arg fs,
                                 expect_operand := False\<rparr>))
                 else Inr (st\<lparr>output' := out, opstack := ops1, expect_operand := False\<rparr>)))
     else
       (let t1 = (if kind t = Minus \<and> expect_operand st then t\<lparr>kind := Neg\<rparr> else t) in
        if is_op (kind t1) then
          (case pop_ops (kind t1) (opstack st) (output' st) of
             (ops, out) \<Rightarrow>
               Inr (st\<lparr>output' := out, opstack := t1 # ops, expect_operand := True\<rparr>))
        else Inl (ParseError ''Unexpected token in expression'')))"

text \<open>
  One full iteration: the identifier case reads the lookahead token first; every other case
  ends by reading the next token. The result is the next current token, the lexer and the locals.
\<close>

definition to_rpn_step ::
  "('d::zero) strtod \<Rightarrow> string \<Rightarrow> 'd Token \<Rightarrow> ('d, FnFrame) shunt
     \<Rightarrow> error + ('d Token \<times> string \<times> ('d, FnFrame) shunt)" where
  "to_rpn_step strtod lx t st =
    (if kind t = Ident then
       (case Lexer_next strtod lx of
          Inl e \<Rightarrow> Inl e
        | Inr (peek, lx1) \<Rightarrow>
            if kind peek = LParen then
              (case Lexer_next strtod lx1 of
                 Inl e \<Rightarrow> Inl e
               | Inr (t', lx2) \<Rightarrow>
                   Inr (t', lx2,
                        st\<lparr>opstack := peek # (tok Func)\<lparr>text' := text' t\<rparr> # opstack st,
                           fnstack := \<lparr>name = text' t, fn_argc = 0, saw_any_arg = False\<rparr> # fnstack st,
                           expect_operand := True\<rparr>))
            else
              Inr (peek, lx1,
                   st\<lparr>output' := output' st @ [t], expect_operand := False,
                      fnstack := mark_arg (fnstack st)\<rparr>))
     else
       (case to_rpn_token t st of
          Inl e \<Rightarrow> Inl e
        | Inr st' \<Rightarrow>
            (case Lexer_next strtod lx of
               Inl e \<Rightarrow> Inl e
             | Inr (t', lx') \<Rightarrow> Inr (t', lx', st'))))"

lemma skip_ws_length: "length (skip_ws s) \<le> length s"
  by (induction s) auto

lemma punct_not_End: "punct c = Some k \<Longrightarrow> k \<noteq> End"
  by (auto simp: punct_def split: if_splits)

lemma Lexer_next_Cons_length:
  assumes "Lexer_next strtod s = Inr (t, s')" and "skip_ws s = c # cs"
  shows "length s' + (if kind t = End then 0 else 1) \<le> Suc (length cs)"
proof (cases "punct c")
  case (Some k)
  with assms show ?thesis by (auto simp: Lexer_next_def)
next
  case None
  have dw: "\<And>P. length (dropWhile P cs) \<le> length cs"
    by (rule length_dropWhile_le)
  show ?thesis
  proof (cases "c = CHR 0x60")
    case True
    with assms None obtain q where "dropWhile (\<lambda>x. x \<noteq> CHR 0x60) cs = q # s'"
      by (auto simp: Lexer_next_def split: list.splits)
    with dw [of "\<lambda>x. x \<noteq> CHR 0x60"] show ?thesis by simp
  next
    case nb: False
    show ?thesis
    proof (cases "is_ident_start c")
      case True
      with assms None nb have "s' = dropWhile is_ident_char cs"
        by (auto simp: Lexer_next_def)
      with dw [of is_ident_char] show ?thesis by simp
    next
      case False
      with assms None nb obtain n :: nat where "0 < n" "s' = drop n (c # cs)"
        by (auto simp: Lexer_next_def split: if_splits prod.splits)
      then show ?thesis by auto
    qed
  qed
qed

lemma Lexer_next_length:
  assumes "Lexer_next strtod s = Inr (t, s')"
  shows "length s' + (if kind t = End then 0 else 1) \<le> length s"
proof (cases "skip_ws s")
  case Nil
  with assms show ?thesis by (auto simp: Lexer_next_def tok_def)
next
  case (Cons c cs)
  have le: "Suc (length cs) \<le> length s"
    using skip_ws_length [of s] Cons by simp
  from Lexer_next_Cons_length [OF assms Cons] le show ?thesis by linarith
qed

lemma to_rpn_step_length:
  assumes "to_rpn_step strtod lx t st = Inr (t', lx', st')"
  shows "length lx' + (if kind t' = End then 0 else 1) \<le> length lx"
proof (cases "kind t = Ident")
  case False
  with assms have "Lexer_next strtod lx = Inr (t', lx')"
    by (auto simp: to_rpn_step_def split: sum.splits)
  then show ?thesis by (rule Lexer_next_length)
next
  case True
  with assms obtain peek lx1 where p: "Lexer_next strtod lx = Inr (peek, lx1)"
    by (auto simp: to_rpn_step_def split: sum.splits)
  note l1 = Lexer_next_length [OF p]
  show ?thesis
  proof (cases "kind peek = LParen")
    case False
    with assms True p have "t' = peek" "lx' = lx1"
      by (auto simp: to_rpn_step_def)
    with l1 show ?thesis by simp
  next
    case lp: True
    with assms True p have "Lexer_next strtod lx1 = Inr (t', lx')"
      by (auto simp: to_rpn_step_def split: sum.splits)
    from Lexer_next_length [OF this] l1 show ?thesis
      by (auto split: if_splits)
  qed
qed

function to_rpn_loop ::
  "('d::zero) strtod \<Rightarrow> string \<Rightarrow> 'd Token \<Rightarrow> ('d, FnFrame) shunt
     \<Rightarrow> error + ('d, FnFrame) shunt" where
  "to_rpn_loop strtod lx t st =
    (if kind t = End then Inr st
     else
       (case to_rpn_step strtod lx t st of
          Inl e \<Rightarrow> Inl e
        | Inr (t', lx', st') \<Rightarrow> to_rpn_loop strtod lx' t' st'))"
  by pat_completeness auto
termination
  apply (relation "measure (\<lambda>(strtod, lx, t, st). length lx + (if kind t = End then 0 else 1))")
   apply simp
  subgoal for strtod lx t st x2 x y xa ya
    using to_rpn_step_length [of strtod lx t st x xa ya] by simp
  done

declare to_rpn_loop.simps [simp del]

text \<open>The final loop that empties the operator stack.\<close>

fun drain :: "'d Token list \<Rightarrow> 'd Token list \<Rightarrow> error + 'd Token list" where
  "drain [] out = Inr out"
| "drain (t # ts) out =
     (if kind t = LParen then Inl (ParseError ''Mismatched ('')
      else if kind t = Func then Inl (ParseError ''Mismatched function call'')
      else drain ts (out @ [t]))"

definition to_rpn :: "('d::zero) strtod \<Rightarrow> string \<Rightarrow> 'd Token \<Rightarrow> error + 'd Token list" where
  "to_rpn strtod lx t0 =
    (case to_rpn_loop strtod lx t0 shunt_init of
       Inl e \<Rightarrow> Inl e
     | Inr st \<Rightarrow>
         (case drain (opstack st) (output' st) of
            Inl e \<Rightarrow> Inl e
          | Inr out \<Rightarrow>
              if fnstack st \<noteq> [] then Inl (ParseError ''Mismatched function call'')
              else Inr out))"

section \<open>Programs (program.hpp) and lowering\<close>

datatype Op = PushVar | PushNum | Add | Sub | Mul | Div | Op_Neg | Call | Store

record 'd Instr =
  op :: Op
  itext :: string
  inumber :: 'd
  argc :: int

record 'd Program =
  code :: "'d Instr list"

definition instr :: "Op \<Rightarrow> ('d::zero) Instr" where
  "instr k = \<lparr>op = k, itext = [], inumber = 0, argc = 0\<rparr>"

text \<open>The \<open>switch\<close> of the lowering loop for one postfix token.\<close>

definition lower :: "('d::zero) Token \<Rightarrow> error + 'd Instr" where
  "lower t =
    (if kind t = Number then Inr ((instr PushNum)\<lparr>inumber := number t\<rparr>)
     else if kind t = Ident then Inr ((instr PushVar)\<lparr>itext := text' t\<rparr>)
     else if kind t = Neg then Inr (instr Op_Neg)
     else if kind t = Plus then Inr (instr Add)
     else if kind t = Minus then Inr (instr Sub)
     else if kind t = Star then Inr (instr Mul)
     else if kind t = Slash then Inr (instr Div)
     else if kind t = Func then Inr ((instr Call)\<lparr>itext := text' t, argc := arity t\<rparr>)
     else Inl (ParseError ''Unsupported token in RPN compilation''))"

fun lower_all :: "('d::zero) Token list \<Rightarrow> 'd Instr list \<Rightarrow> error + 'd Instr list" where
  "lower_all [] acc = Inr acc"
| "lower_all (t # ts) acc =
     (case lower t of Inl e \<Rightarrow> Inl e | Inr i \<Rightarrow> lower_all ts (acc @ [i]))"

definition tsexpr_compile :: "('d::zero) strtod \<Rightarrow> string \<Rightarrow> error + 'd Program" where
  "tsexpr_compile strtod input =
    (case Lexer_next strtod input of
       Inl e \<Rightarrow> Inl e
     | Inr (lhs, lx1) \<Rightarrow>
         if kind lhs \<noteq> Ident
         then Inl (ParseError ''Expected assignment target identifier at start'')
         else
           (case Lexer_next strtod lx1 of
              Inl e \<Rightarrow> Inl e
            | Inr (eq, lx2) \<Rightarrow>
                if kind eq \<noteq> Assign
                then Inl (ParseError ''Expected = after assignment target'')
                else
                  (case Lexer_next strtod lx2 of
                     Inl e \<Rightarrow> Inl e
                   | Inr (first, lx3) \<Rightarrow>
                       if kind first = End
                       then Inl (ParseError ''Expected expression after ='')
                       else
                         (case to_rpn strtod lx3 first of
                            Inl e \<Rightarrow> Inl e
                          | Inr rpn \<Rightarrow>
                              (case lower_all rpn [] of
                                 Inl e \<Rightarrow> Inl e
                               | Inr c \<Rightarrow>
                                   Inr \<lparr>code = c @ [(instr Store)\<lparr>itext := text' lhs\<rparr>]\<rparr>)))))"

section \<open>The stack machine (Program::execute)\<close>

text \<open>
  \<open>execute\<close> is a template over the backend. A backend is a record of its six operations over
  a backend state \<open>'b\<close> and a value type \<open>'v\<close>. Every operation but \<open>store_var\<close> may throw and
  leaves the state alone (they are \<open>const\<close> in both backends of the repository);
  \<open>store_var\<close> returns the new state.
\<close>

record ('b, 'v, 'd) Backend =
  load_var :: "'b \<Rightarrow> string \<Rightarrow> error + 'v"
  store_var :: "'b \<Rightarrow> string \<Rightarrow> 'v \<Rightarrow> 'b"
  make_number :: "'b \<Rightarrow> 'd \<Rightarrow> error + 'v"
  neg :: "'b \<Rightarrow> 'v \<Rightarrow> error + 'v"
  binary :: "'b \<Rightarrow> Op \<Rightarrow> 'v \<Rightarrow> 'v \<Rightarrow> error + 'v"
  call :: "'b \<Rightarrow> string \<Rightarrow> 'v list \<Rightarrow> error + 'v"

text \<open>The operand stack \<open>st\<close> is a list whose head is \<open>st.back()\<close>.\<close>

fun pop :: "'v list \<Rightarrow> error + ('v \<times> 'v list)" where
  "pop [] = Inl (EvalError ''Stack underflow (bad program)'')"
| "pop (v # st) = Inr (v, st)"

text \<open>
  \<open>for (int i = argc - 1; i >= 0; --i) args[i] = pop();\<close> with \<open>n\<close> iterations left and the
  entries \<open>args[n..]\<close> already filled.
\<close>

fun pop_args :: "nat \<Rightarrow> 'v list \<Rightarrow> 'v list \<Rightarrow> error + ('v list \<times> 'v list)" where
  "pop_args 0 st args = Inr (args, st)"
| "pop_args (Suc n) st args =
     (case pop st of Inl e \<Rightarrow> Inl e | Inr (v, st') \<Rightarrow> pop_args n st' (v # args))"

definition push_result :: "'b \<Rightarrow> 'v list \<Rightarrow> error + 'v \<Rightarrow> error + ('b \<times> 'v list)" where
  "push_result b st r = (case r of Inl e \<Rightarrow> Inl e | Inr v \<Rightarrow> Inr (b, v # st))"

definition exec_instr ::
  "('b, 'v, 'd) Backend \<Rightarrow> 'd Instr \<Rightarrow> 'b \<Rightarrow> 'v list \<Rightarrow> error + ('b \<times> 'v list)" where
  "exec_instr be ins b st =
    (case op ins of
       PushVar \<Rightarrow> push_result b st (load_var be b (itext ins))
     | PushNum \<Rightarrow> push_result b st (make_number be b (inumber ins))
     | Op_Neg \<Rightarrow>
         (case pop st of
            Inl e \<Rightarrow> Inl e
          | Inr (a, st1) \<Rightarrow> push_result b st1 (neg be b a))
     | Call \<Rightarrow>
         if argc ins < 0 then Inl (EvalError ''Invalid CALL argc'')
         else if nat (argc ins) > length st then Inl (EvalError ''Not enough args for CALL'')
         else
           (case pop_args (nat (argc ins)) st [] of
              Inl e \<Rightarrow> Inl e
            | Inr (args, st1) \<Rightarrow> push_result b st1 (call be b (itext ins) args))
     | Store \<Rightarrow>
         (case pop st of
            Inl e \<Rightarrow> Inl e
          | Inr (v, st1) \<Rightarrow> Inr (store_var be b (itext ins) v, st1))
     | _ \<Rightarrow>
         (case pop st of
            Inl e \<Rightarrow> Inl e
          | Inr (y, st1) \<Rightarrow>
              (case pop st1 of
                 Inl e \<Rightarrow> Inl e
               | Inr (x, st2) \<Rightarrow> push_result b st2 (binary be b (op ins) x y))))"

text \<open>
  The loop over \<open>code\<close>. A failure carries the backend state at the moment of the throw;
  a normal end carries the final state and what is left on the local stack.
\<close>

fun exec_loop ::
  "('b, 'v, 'd) Backend \<Rightarrow> 'd Instr list \<Rightarrow> 'b \<Rightarrow> 'v list \<Rightarrow> (error \<times> 'b) + ('b \<times> 'v list)" where
  "exec_loop be [] b st = Inr (b, st)"
| "exec_loop be (ins # rest) b st =
     (case exec_instr be ins b st of
        Inl e \<Rightarrow> Inl (e, b)
      | Inr (b', st') \<Rightarrow> exec_loop be rest b' st')"

definition execute :: "('b, 'v, 'd) Backend \<Rightarrow> 'd Program \<Rightarrow> 'b \<Rightarrow> error option \<times> 'b" where
  "execute be p b =
    (case exec_loop be (code p) b [] of
       Inl (e, b') \<Rightarrow> (Some e, b')
     | Inr (b', st) \<Rightarrow> (None, b'))"

section \<open>The example backend (examples/toy_backend.cpp; the test backend is the same)\<close>

text \<open>
  A value is a series or a scalar. The element type \<open>'d\<close> only needs the arithmetic
  operations as symbols.
\<close>

datatype 'd Value = Series "'d list" | Scalar 'd

type_synonym 'd vars = "string \<rightharpoonup> 'd Value"

definition elementwise :: "'d list \<Rightarrow> 'd list \<Rightarrow> ('d \<Rightarrow> 'd \<Rightarrow> 'd) \<Rightarrow> error + 'd list" where
  "elementwise a b f =
    (if length a \<noteq> length b then Inl (RuntimeError ''Series length mismatch'')
     else Inr (map2 f a b))"

definition elementwise_scalar :: "'d list \<Rightarrow> 'd \<Rightarrow> ('d \<Rightarrow> 'd \<Rightarrow> 'd) \<Rightarrow> 'd list" where
  "elementwise_scalar a s f = map (\<lambda>x. f x s) a"

definition sumproduct_series :: "('d::{zero,plus,times}) list \<Rightarrow> 'd list \<Rightarrow> error + 'd" where
  "sumproduct_series a b =
    (if length a \<noteq> length b then Inl (RuntimeError ''Series length mismatch'')
     else Inr (foldl (\<lambda>acc (x, y). acc + x * y) 0 (zip a b)))"

definition pick :: "Op \<Rightarrow> error + (('d::{plus,minus,times,inverse}) \<Rightarrow> 'd \<Rightarrow> 'd)" where
  "pick o' =
    (case o' of
       Add \<Rightarrow> Inr (\<lambda>x y. x + y)
     | Sub \<Rightarrow> Inr (\<lambda>x y. x - y)
     | Mul \<Rightarrow> Inr (\<lambda>x y. x * y)
     | Div \<Rightarrow> Inr (\<lambda>x y. x / y)
     | _ \<Rightarrow> Inl (RuntimeError ''Unsupported binary op''))"

definition toy_load_var :: "'d vars \<Rightarrow> string \<Rightarrow> error + 'd Value" where
  "toy_load_var vs nm =
    (case vs nm of
       None \<Rightarrow> Inl (RuntimeError (''Unknown variable: '' @ nm))
     | Some v \<Rightarrow> Inr v)"

definition toy_store_var :: "'d vars \<Rightarrow> string \<Rightarrow> 'd Value \<Rightarrow> 'd vars" where
  "toy_store_var vs nm v = vs(nm \<mapsto> v)"

definition toy_neg :: "('d::uminus) Value \<Rightarrow> error + 'd Value" where
  "toy_neg a = (case a of Scalar x \<Rightarrow> Inr (Scalar (- x)) | Series s \<Rightarrow> Inr (Series (map uminus s)))"

definition toy_binary ::
  "Op \<Rightarrow> ('d::{plus,minus,times,inverse}) Value \<Rightarrow> 'd Value \<Rightarrow> error + 'd Value" where
  "toy_binary o' a b =
    (case pick o' of
       Inl e \<Rightarrow> Inl e
     | Inr f \<Rightarrow>
         (case a of
            Scalar x \<Rightarrow>
              (case b of
                 Scalar y \<Rightarrow> Inr (Scalar (f x y))
               | Series ys \<Rightarrow> Inr (Series (map (f x) ys)))
          | Series xs \<Rightarrow>
              (case b of
                 Series ys \<Rightarrow>
                   (case elementwise xs ys f of Inl e \<Rightarrow> Inl e | Inr r \<Rightarrow> Inr (Series r))
               | Scalar y \<Rightarrow> Inr (Series (elementwise_scalar xs y f)))))"

definition toy_call ::
  "string \<Rightarrow> ('d::{zero,plus,times}) Value list \<Rightarrow> error + 'd Value" where
  "toy_call fn args =
    (if fn = ''sumproduct'' then
       (case args of
          [a, b] \<Rightarrow>
            (case a of
               Series xs \<Rightarrow>
                 (case b of
                    Series ys \<Rightarrow>
                      (case sumproduct_series xs ys of Inl e \<Rightarrow> Inl e | Inr r \<Rightarrow> Inr (Scalar r))
                  | Scalar k \<Rightarrow> Inr (Scalar (k * foldl (+) 0 xs)))
             | Scalar k \<Rightarrow>
                 (case b of
                    Series ys \<Rightarrow> Inr (Scalar (k * foldl (+) 0 ys))
                  | Scalar y \<Rightarrow> Inr (Scalar (k * y))))
        | _ \<Rightarrow> Inl (RuntimeError ''sumproduct expects 2 args''))
     else Inl (RuntimeError (''Unknown function: '' @ fn)))"

definition toy :: "(('d::{zero,plus,minus,times,inverse,uminus}) vars, 'd Value, 'd) Backend" where
  "toy =
    \<lparr>load_var = toy_load_var,
     store_var = toy_store_var,
     make_number = (\<lambda>b x. Inr (Scalar x)),
     neg = (\<lambda>b. toy_neg),
     binary = (\<lambda>b. toy_binary),
     call = (\<lambda>b. toy_call)\<rparr>"

text \<open>
  The instance of \<open>strtod\<close> used in the worked examples: it scans a run of decimal digits. C's
  \<open>strtod\<close> returns the same value and length on a literal that is a short run of digits not
  followed by a point, an exponent or a hexadecimal prefix, which is all the examples contain.
\<close>

definition strtod_digits :: "string \<Rightarrow> real \<times> nat" where
  "strtod_digits s =
    (let ds = takeWhile isdigit s
     in (foldl (\<lambda>acc c. 10 * acc + of_nat (of_char c - 48)) 0 ds, length ds))"

section \<open>The lexer of namespace ts::expr (expr.cpp)\<close>

definition punct_expr :: "char \<Rightarrow> TokKind option" where
  "punct_expr c =
    (if c = CHR '','' then Some Comma
     else if c = CHR ''+'' then Some Plus
     else if c = CHR ''-'' then Some Minus
     else if c = CHR ''*'' then Some Star
     else if c = CHR ''/'' then Some Slash
     else if c = CHR ''('' then Some LParen
     else if c = CHR '')'' then Some RParen
     else if c = CHR ''='' then Some Assign
     else None)"

definition next_impl :: "('d::zero) strtod \<Rightarrow> string \<Rightarrow> error + ('d Token \<times> string)" where
  "next_impl strtod s =
    (case skip_ws s of
       [] \<Rightarrow> Inr (tok End, [])
     | c # cs \<Rightarrow>
         (case punct_expr c of
            Some k \<Rightarrow> Inr (tok k, cs)
          | None \<Rightarrow>
              if c = CHR 0x60 then
                (case dropWhile (\<lambda>x. x \<noteq> CHR 0x60) cs of
                   [] \<Rightarrow> Inl (ParseError ''Unterminated backtick identifier'')
                 | q # rest \<Rightarrow>
                     Inr ((tok Ident)\<lparr>text' := takeWhile (\<lambda>x. x \<noteq> CHR 0x60) cs\<rparr>, rest))
              else if is_ident_start c then
                Inr ((tok Ident)\<lparr>text' := c # takeWhile is_ident_char cs\<rparr>,
                     dropWhile is_ident_char cs)
              else if isdigit c \<or> c = CHR ''.'' then
                (case strtod (c # cs) of
                   (v, n) \<Rightarrow>
                     if n = 0 then Inl (ParseError ''Invalid number'')
                     else Inr ((tok Number)\<lparr>number := v\<rparr>, drop n (c # cs)))
              else Inl (ParseError (''Unexpected character: '' @ [c]))))"

text \<open>The class \<open>Lexer\<close>: \<open>remaining\<close> is the unread rest of the input (\<open>s_\<close> from \<open>i_\<close> on) and
  \<open>lookahead\<close> is the member \<open>lookahead_\<close>.\<close>

record 'd Lexer =
  remaining :: string
  lookahead :: "'d Token option"

definition Lexer :: "string \<Rightarrow> 'd Lexer" where
  "Lexer s = \<lparr>remaining = s, lookahead = None\<rparr>"

definition peek :: "('d::zero) strtod \<Rightarrow> 'd Lexer \<Rightarrow> error + ('d Token \<times> 'd Lexer)" where
  "peek strtod L =
    (case lookahead L of
       Some t \<Rightarrow> Inr (t, L)
     | None \<Rightarrow>
         (case next_impl strtod (remaining L) of
            Inl e \<Rightarrow> Inl e
          | Inr (t, r) \<Rightarrow> Inr (t, \<lparr>remaining = r, lookahead = Some t\<rparr>)))"

definition lex_next :: "('d::zero) strtod \<Rightarrow> 'd Lexer \<Rightarrow> error + ('d Token \<times> 'd Lexer)" where
  "lex_next strtod L =
    (case lookahead L of
       Some t \<Rightarrow> Inr (t, L\<lparr>lookahead := None\<rparr>)
     | None \<Rightarrow>
         (case next_impl strtod (remaining L) of
            Inl e \<Rightarrow> Inl e
          | Inr (t, r) \<Rightarrow> Inr (t, \<lparr>remaining = r, lookahead = None\<rparr>)))"

section \<open>The compiler of namespace ts::expr (expr.cpp)\<close>

definition precedence_expr :: "TokKind \<Rightarrow> int" where
  "precedence_expr k =
    (if k = Neg then 3
     else if k = Star \<or> k = Slash then 2
     else if k = Plus \<or> k = Minus then 1
     else 0)"

definition is_right_associative :: "TokKind \<Rightarrow> bool" where
  "is_right_associative k = (k = Neg)"

definition is_operator :: "TokKind \<Rightarrow> bool" where
  "is_operator k = (k = Plus \<or> k = Minus \<or> k = Star \<or> k = Slash \<or> k = Neg)"

definition is_function :: "TokKind \<Rightarrow> bool" where
  "is_function k = (k = Func)"

record FuncCtx =
  commas :: int
  depth :: int
  saw_expr :: bool

text \<open>
  \<open>if (!func_stack.empty() && func_stack.back().depth == 1 && expect_operand)
  func_stack.back().saw_expr = true;\<close>
\<close>

definition mark_expr :: "bool \<Rightarrow> FuncCtx list \<Rightarrow> FuncCtx list" where
  "mark_expr eo fs =
    (case fs of
       [] \<Rightarrow> []
     | f # r \<Rightarrow> if depth f = 1 \<and> eo then f\<lparr>saw_expr := True\<rparr> # r else f # r)"

text \<open>
  The loop of the close-parenthesis case: pops up to and including the nearest open
  parenthesis; the flag is \<open>found_lparen\<close>.
\<close>

fun pop_through_lparen ::
  "'d Token list \<Rightarrow> 'd Token list \<Rightarrow> bool \<times> 'd Token list \<times> 'd Token list" where
  "pop_through_lparen [] out = (False, [], out)"
| "pop_through_lparen (t # ts) out =
     (if kind t = LParen then (True, ts, out) else pop_through_lparen ts (out @ [t]))"

fun pop_operators ::
  "TokKind \<Rightarrow> 'd Token list \<Rightarrow> 'd Token list \<Rightarrow> 'd Token list \<times> 'd Token list" where
  "pop_operators curk [] out = ([], out)"
| "pop_operators curk (tp # rest) out =
     (if is_operator (kind tp) \<and>
         (if is_right_associative curk then precedence_expr (kind tp) > precedence_expr curk
          else precedence_expr (kind tp) \<ge> precedence_expr curk)
      then pop_operators curk rest (out @ [tp])
      else (tp # rest, out))"

text \<open>One iteration of the loop for a token that is neither \<open>End\<close> nor an identifier.\<close>

definition compile_token :: "'d Token \<Rightarrow> ('d, FuncCtx) shunt \<Rightarrow> error + ('d, FuncCtx) shunt" where
  "compile_token t st =
    (if kind t = Number then
       Inr (st\<lparr>output' := output' st @ [t],
                fnstack := mark_expr (expect_operand st) (fnstack st),
                expect_operand := False\<rparr>)
     else if kind t = Comma then
       (if fnstack st = [] \<or> depth (hd (fnstack st)) \<noteq> 1 then
          Inl (ParseError
            ''Unexpected , (commas are only valid inside function argument lists)'')
        else
          (case pop_to_lparen (opstack st) (output' st) of
             (ops, out) \<Rightarrow>
               if ops = [] then Inl (ParseError ''Unexpected ,'')
               else
                 Inr (st\<lparr>output' := out, opstack := ops,
                          fnstack := (hd (fnstack st))\<lparr>commas := commas (hd (fnstack st)) + 1\<rparr>
                                       # tl (fnstack st),
                          expect_operand := True\<rparr>)))
     else if kind t = LParen then
       Inr (st\<lparr>opstack := t # opstack st,
                fnstack :=
                  (case fnstack st of
                     [] \<Rightarrow> []
                   | f # r \<Rightarrow>
                       (let f1 = f\<lparr>depth := depth f + 1\<rparr>
                        in if depth f1 = 2 \<and> expect_operand st
                           then f1\<lparr>saw_expr := True\<rparr> # r else f1 # r)),
                expect_operand := True\<rparr>)
     else if kind t = RParen then
       (let fs1 = (case fnstack st of [] \<Rightarrow> [] | f # r \<Rightarrow> f\<lparr>depth := depth f - 1\<rparr> # r) in
        if fs1 \<noteq> [] \<and> depth (hd fs1) < 0 then Inl (ParseError ''Mismatched )'')
        else
          (let closes_function = (fs1 \<noteq> [] \<and> depth (hd fs1) = 0) in
           case pop_through_lparen (opstack st) (output' st) of
             (found_lparen, ops, out) \<Rightarrow>
               if \<not> found_lparen then Inl (ParseError ''Mismatched )'')
               else if closes_function then
                 (if ops = [] \<or> \<not> is_function (kind (hd ops)) then
                    Inl (ParseError ''Internal error: function context without function token'')
                  else if \<not> saw_expr (hd fs1) then
                    Inl (ParseError ''Function call has empty argument list'')
                  else
                    Inr (st\<lparr>output' := out @ [(hd ops)\<lparr>arity := commas (hd fs1) + 1\<rparr>],
                             opstack := tl ops,
                             fnstack := tl fs1,
                             expect_operand := False\<rparr>))
               else
                 Inr (st\<lparr>output' := out, opstack := ops, fnstack := fs1,
                          expect_operand := False\<rparr>)))
     else
       (let t1 = (if kind t = Minus \<and> expect_operand st then t\<lparr>kind := Neg\<rparr> else t) in
        if is_operator (kind t1) then
          (case pop_operators (kind t1) (opstack st) (output' st) of
             (ops, out) \<Rightarrow>
               Inr (st\<lparr>output' := out, opstack := t1 # ops, expect_operand := True\<rparr>))
        else if kind t1 = Assign then Inl (ParseError ''Unexpected = inside expression'')
        else Inl (ParseError ''Unexpected token in expression'')))"

text \<open>
  One full iteration after \<open>Token t = lex.next()\<close> returned a token other than \<open>End\<close>.
  Only the identifier case touches the lexer (\<open>peek\<close>, and \<open>next\<close> to consume the
  parenthesis).
\<close>

definition compile_step ::
  "('d::zero) strtod \<Rightarrow> 'd Lexer \<Rightarrow> 'd Token \<Rightarrow> ('d, FuncCtx) shunt
     \<Rightarrow> error + ('d Lexer \<times> ('d, FuncCtx) shunt)" where
  "compile_step strtod L t st =
    (if kind t = Ident then
       (case peek strtod L of
          Inl e \<Rightarrow> Inl e
        | Inr (p, L1) \<Rightarrow>
            if kind p = LParen then
              (case lex_next strtod L1 of
                 Inl e \<Rightarrow> Inl e
               | Inr (lp, L2) \<Rightarrow>
                   Inr (L2,
                        st\<lparr>opstack := lp # (tok Func)\<lparr>text' := text' t\<rparr> # opstack st,
                           fnstack := \<lparr>commas = 0, depth = 1, saw_expr = False\<rparr> # fnstack st,
                           expect_operand := True\<rparr>))
            else
              Inr (L1,
                   st\<lparr>output' := output' st @ [t],
                      fnstack := mark_expr (expect_operand st) (fnstack st),
                      expect_operand := False\<rparr>))
     else
       (case compile_token t st of
          Inl e \<Rightarrow> Inl e
        | Inr st' \<Rightarrow> Inr (L, st')))"

definition lexer_measure :: "'d Lexer \<Rightarrow> nat" where
  "lexer_measure L =
    length (remaining L) +
    (case lookahead L of None \<Rightarrow> 0 | Some t \<Rightarrow> if kind t = End then 0 else 1)"

lemma punct_expr_eq: "punct_expr c = punct c"
  by (simp add: punct_expr_def punct_def)

lemma next_impl_eq: "next_impl strtod s = Lexer_next strtod s"
  by (simp add: next_impl_def Lexer_next_def punct_expr_eq cong: list.case_cong)

lemma lex_next_measure:
  assumes "lex_next strtod L = Inr (t, L1)"
  shows "lexer_measure L1 + (if kind t = End then 0 else 1) \<le> lexer_measure L"
proof (cases "lookahead L")
  case None
  with assms obtain r where "Lexer_next strtod (remaining L) = Inr (t, r)"
    and "L1 = \<lparr>remaining = r, lookahead = None\<rparr>"
    by (auto simp: lex_next_def next_impl_eq split: sum.splits)
  with Lexer_next_length [of strtod "remaining L" t r] None show ?thesis
    by (simp add: lexer_measure_def)
next
  case (Some u)
  with assms show ?thesis by (auto simp: lex_next_def lexer_measure_def)
qed

lemma peek_measure:
  assumes "peek strtod L = Inr (t, L1)"
  shows "lexer_measure L1 \<le> lexer_measure L"
proof (cases "lookahead L")
  case None
  with assms obtain r where "Lexer_next strtod (remaining L) = Inr (t, r)"
    and "L1 = \<lparr>remaining = r, lookahead = Some t\<rparr>"
    by (auto simp: peek_def next_impl_eq split: sum.splits)
  with Lexer_next_length [of strtod "remaining L" t r] None show ?thesis
    by (simp add: lexer_measure_def)
next
  case (Some u)
  with assms show ?thesis by (auto simp: peek_def)
qed

lemma compile_step_measure:
  assumes "compile_step strtod L t st = Inr (L2, st')"
  shows "lexer_measure L2 \<le> lexer_measure L"
proof (cases "kind t = Ident")
  case False
  with assms show ?thesis by (auto simp: compile_step_def split: sum.splits)
next
  case True
  with assms obtain p L1 where p: "peek strtod L = Inr (p, L1)"
    by (auto simp: compile_step_def split: sum.splits)
  note m1 = peek_measure [OF p]
  show ?thesis
  proof (cases "kind p = LParen")
    case False
    with assms True p have "L2 = L1" by (auto simp: compile_step_def)
    with m1 show ?thesis by simp
  next
    case lp: True
    with assms True p obtain q where "lex_next strtod L1 = Inr (q, L2)"
      by (auto simp: compile_step_def split: sum.splits)
    from lex_next_measure [OF this] m1 show ?thesis by linarith
  qed
qed

function compile_loop ::
  "('d::zero) strtod \<Rightarrow> 'd Lexer \<Rightarrow> ('d, FuncCtx) shunt \<Rightarrow> error + ('d, FuncCtx) shunt" where
  "compile_loop strtod L st =
    (case lex_next strtod L of
       Inl e \<Rightarrow> Inl e
     | Inr (t, L1) \<Rightarrow>
         if kind t = End then Inr st
         else
           (case compile_step strtod L1 t st of
              Inl e \<Rightarrow> Inl e
            | Inr (L2, st') \<Rightarrow> compile_loop strtod L2 st'))"
  by pat_completeness auto
termination
  apply (relation "measure (\<lambda>(strtod, L, st). lexer_measure L)")
   apply simp
  subgoal for strtod L st x2 t L1 x2a L2 st'
    using lex_next_measure [of strtod L t L1] compile_step_measure [of strtod L1 t st L2 st']
    by auto
  done

declare compile_loop.simps [simp del]

record 'd Compiled =
  target :: string
  rpn :: "'d Token list"

definition ts_expr_compile :: "('d::zero) strtod \<Rightarrow> string \<Rightarrow> error + 'd Compiled" where
  "ts_expr_compile strtod input =
    (case lex_next strtod (Lexer input) of
       Inl e \<Rightarrow> Inl e
     | Inr (lhs, L1) \<Rightarrow>
         if kind lhs \<noteq> Ident
         then Inl (ParseError ''Expected assignment target identifier at start'')
         else
           (case lex_next strtod L1 of
              Inl e \<Rightarrow> Inl e
            | Inr (eq, L2) \<Rightarrow>
                if kind eq \<noteq> Assign
                then Inl (ParseError ''Expected = after assignment target'')
                else
                  (case compile_loop strtod L2 shunt_init of
                     Inl e \<Rightarrow> Inl e
                   | Inr st \<Rightarrow>
                       (case drain (opstack st) (output' st) of
                          Inl e \<Rightarrow> Inl e
                        | Inr out \<Rightarrow> Inr \<lparr>target = text' lhs, rpn = out\<rparr>))))"

section \<open>Evaluation in namespace ts::expr (expr.cpp, timeseries_stub.cpp)\<close>

text \<open>
  \<open>Value\<close> is \<open>std::variant<TimeSeries, double>\<close>; the constructor \<open>Series\<close> holds the vector
  \<open>v\<close> of a \<open>TimeSeries\<close>. \<open>Env\<close> maps names to \<open>TimeSeries\<close>.
\<close>

type_synonym 'd Env = "string \<rightharpoonup> 'd list"

definition binop_ts_ts :: "'d list \<Rightarrow> 'd list \<Rightarrow> ('d \<Rightarrow> 'd \<Rightarrow> 'd) \<Rightarrow> error + 'd list" where
  "binop_ts_ts a b f =
    (if length a \<noteq> length b
     then Inl (RuntimeError ''TimeSeries size mismatch (stub alignment rule)'')
     else Inr (map2 f a b))"

definition binop_ts_s :: "'d list \<Rightarrow> 'd \<Rightarrow> ('d \<Rightarrow> 'd \<Rightarrow> 'd) \<Rightarrow> 'd list" where
  "binop_ts_s a b f = map (\<lambda>x. f x b) a"

definition binop_s_ts :: "'d \<Rightarrow> 'd list \<Rightarrow> ('d \<Rightarrow> 'd \<Rightarrow> 'd) \<Rightarrow> 'd list" where
  "binop_s_ts a b f = map (\<lambda>x. f a x) b"

definition sumproduct_ts_ts :: "('d::{zero,plus,times}) list \<Rightarrow> 'd list \<Rightarrow> error + 'd" where
  "sumproduct_ts_ts a b =
    (if length a \<noteq> length b
     then Inl (RuntimeError ''TimeSeries size mismatch (stub alignment rule)'')
     else Inr (foldl (\<lambda>acc (x, y). acc + x * y) 0 (zip a b)))"

definition sumproduct_ts_s :: "('d::{zero,plus,times}) list \<Rightarrow> 'd \<Rightarrow> 'd" where
  "sumproduct_ts_s a b = foldl (\<lambda>acc x. acc + x * b) 0 a"

definition sumproduct_s_ts :: "('d::{zero,plus,times}) \<Rightarrow> 'd list \<Rightarrow> 'd" where
  "sumproduct_s_ts a b = foldl (\<lambda>acc x. acc + a * x) 0 b"

definition negate_value :: "('d::uminus) Value \<Rightarrow> 'd Value" where
  "negate_value v = (case v of Scalar x \<Rightarrow> Scalar (- x) | Series a \<Rightarrow> Series (map uminus a))"

text \<open>The four-way \<open>switch (op)\<close> shared by the branches of \<open>apply_binary\<close>.\<close>

definition arith :: "TokKind \<Rightarrow> (('d::{plus,minus,times,inverse}) \<Rightarrow> 'd \<Rightarrow> 'd) option" where
  "arith k =
    (if k = Plus then Some (\<lambda>x y. x + y)
     else if k = Minus then Some (\<lambda>x y. x - y)
     else if k = Star then Some (\<lambda>x y. x * y)
     else if k = Slash then Some (\<lambda>x y. x / y)
     else None)"

definition apply_binary ::
  "TokKind \<Rightarrow> ('d::{plus,minus,times,inverse}) Value \<Rightarrow> 'd Value \<Rightarrow> error + 'd Value" where
  "apply_binary k a b =
    (case a of
       Scalar x \<Rightarrow>
         (case b of
            Scalar y \<Rightarrow>
              (case arith k of
                 Some f \<Rightarrow> Inr (Scalar (f x y))
               | None \<Rightarrow> Inl (EvalError ''Unsupported scalar op''))
          | Series ys \<Rightarrow>
              (case arith k of
                 Some f \<Rightarrow> Inr (Series (binop_s_ts x ys f))
               | None \<Rightarrow> Inl (EvalError ''Unsupported scalar-TS op'')))
     | Series xs \<Rightarrow>
         (case b of
            Series ys \<Rightarrow>
              (case arith k of
                 Some f \<Rightarrow>
                   (case binop_ts_ts xs ys f of Inl e \<Rightarrow> Inl e | Inr r \<Rightarrow> Inr (Series r))
               | None \<Rightarrow> Inl (EvalError ''Unsupported TS op''))
          | Scalar y \<Rightarrow>
              (case arith k of
                 Some f \<Rightarrow> Inr (Series (binop_ts_s xs y f))
               | None \<Rightarrow> Inl (EvalError ''Unsupported TS-scalar op''))))"

definition apply_function ::
  "('d::{zero,plus,times}) Token \<Rightarrow> 'd Value list \<Rightarrow> error + 'd Value" where
  "apply_function fn args =
    (if text' fn = ''sumproduct'' then
       (case args of
          [a, b] \<Rightarrow>
            (case a of
               Series xs \<Rightarrow>
                 (case b of
                    Series ys \<Rightarrow>
                      (case sumproduct_ts_ts xs ys of Inl e \<Rightarrow> Inl e | Inr r \<Rightarrow> Inr (Scalar r))
                  | Scalar y \<Rightarrow> Inr (Scalar (sumproduct_ts_s xs y)))
             | Scalar x \<Rightarrow>
                 (case b of
                    Series ys \<Rightarrow> Inr (Scalar (sumproduct_s_ts x ys))
                  | Scalar y \<Rightarrow> Inr (Scalar (x * y))))
        | _ \<Rightarrow> Inl (EvalError ''sumproduct expects 2 arguments''))
     else Inl (EvalError (''Unknown function: '' @ text' fn)))"

fun pop_expr :: "'v list \<Rightarrow> error + ('v \<times> 'v list)" where
  "pop_expr [] = Inl (EvalError ''Stack underflow (bad expression)'')"
| "pop_expr (v # st) = Inr (v, st)"

fun pop_args_expr :: "nat \<Rightarrow> 'v list \<Rightarrow> 'v list \<Rightarrow> error + ('v list \<times> 'v list)" where
  "pop_args_expr 0 st args = Inr (args, st)"
| "pop_args_expr (Suc n) st args =
     (case pop_expr st of Inl e \<Rightarrow> Inl e | Inr (v, st') \<Rightarrow> pop_args_expr n st' (v # args))"

definition eval_token ::
  "('d::{zero,plus,minus,times,inverse,uminus}) Env \<Rightarrow> 'd Token \<Rightarrow> 'd Value list
     \<Rightarrow> error + 'd Value list" where
  "eval_token env t st =
    (if kind t = Number then Inr (Scalar (number t) # st)
     else if kind t = Ident then
       (case env (text' t) of
          None \<Rightarrow> Inl (EvalError (''Unknown variable: '' @ text' t))
        | Some ts \<Rightarrow> Inr (Series ts # st))
     else if kind t = Neg then
       (case pop_expr st of
          Inl e \<Rightarrow> Inl e
        | Inr (v, st1) \<Rightarrow> Inr (negate_value v # st1))
     else if kind t = Plus \<or> kind t = Minus \<or> kind t = Star \<or> kind t = Slash then
       (case pop_expr st of
          Inl e \<Rightarrow> Inl e
        | Inr (b, st1) \<Rightarrow>
            (case pop_expr st1 of
               Inl e \<Rightarrow> Inl e
             | Inr (a, st2) \<Rightarrow>
                 (case apply_binary (kind t) a b of
                    Inl e \<Rightarrow> Inl e
                  | Inr r \<Rightarrow> Inr (r # st2))))
     else if kind t = Func then
       (if arity t \<le> 0 then Inl (EvalError ''Bad function arity'')
        else if nat (arity t) > length st then Inl (EvalError ''Stack underflow (function args)'')
        else
          (case pop_args_expr (nat (arity t)) st [] of
             Inl e \<Rightarrow> Inl e
           | Inr (args, st1) \<Rightarrow>
               (case apply_function t args of
                  Inl e \<Rightarrow> Inl e
                | Inr r \<Rightarrow> Inr (r # st1))))
     else Inl (EvalError ''Unexpected token during evaluation''))"

fun eval_loop ::
  "('d::{zero,plus,minus,times,inverse,uminus}) Env \<Rightarrow> 'd Token list \<Rightarrow> 'd Value list
     \<Rightarrow> error + 'd Value list" where
  "eval_loop env [] st = Inr st"
| "eval_loop env (t # ts) st =
     (case eval_token env t st of Inl e \<Rightarrow> Inl e | Inr st' \<Rightarrow> eval_loop env ts st')"

definition eval_rpn ::
  "('d::{zero,plus,minus,times,inverse,uminus}) Token list \<Rightarrow> 'd Env \<Rightarrow> error + 'd Value" where
  "eval_rpn r env =
    (case eval_loop env r [] of
       Inl e \<Rightarrow> Inl e
     | Inr st \<Rightarrow>
         if length st \<noteq> 1
         then Inl (EvalError ''Expression did not reduce to a single value'')
         else Inr (hd st))"

text \<open>
  \<open>execute_assignment\<close> takes the environment by reference: the result is the exception
  raised, if any, and the environment as the caller sees it afterwards.
\<close>

definition execute_assignment ::
  "('d::{zero,plus,minus,times,inverse,uminus}) strtod \<Rightarrow> string \<Rightarrow> 'd Env
     \<Rightarrow> error option \<times> 'd Env" where
  "execute_assignment strtod input env =
    (case ts_expr_compile strtod input of
       Inl e \<Rightarrow> (Some e, env)
     | Inr c \<Rightarrow>
         (case eval_rpn (rpn c) env of
            Inl e \<Rightarrow> (Some e, env)
          | Inr v \<Rightarrow>
              (case v of
                 Scalar x \<Rightarrow> (None, env(target c \<mapsto> [x]))
               | Series ts \<Rightarrow> (None, env(target c \<mapsto> ts)))))"

text \<open>
  The use of the bytecode pipeline shown in the README and the tests:
  \<open>auto p = tsexpr::compile(input); p.execute(backend);\<close>
\<close>

definition compile_and_execute ::
  "('b, 'v, 'd::zero) Backend \<Rightarrow> 'd strtod \<Rightarrow> string \<Rightarrow> 'b \<Rightarrow> error option \<times> 'b" where
  "compile_and_execute be strtod input b =
    (case tsexpr_compile strtod input of
       Inl e \<Rightarrow> (Some e, b)
     | Inr p \<Rightarrow> execute be p b)"

section \<open>The executor: calls\<close>

lemma pop_args_take_drop:
  "n \<le> length st \<Longrightarrow> pop_args n st args = Inr (rev (take n st) @ args, drop n st)"
proof (induction n arbitrary: st args)
  case 0
  then show ?case by simp
next
  case (Suc n)
  then obtain v st' where st: "st = v # st'" by (cases st) auto
  with Suc.prems have "n \<le> length st'" by simp
  from Suc.IH [OF this] st show ?case by simp
qed

lemma exec_loop_append:
  "exec_loop be pre b st = Inr (b1, st1) \<Longrightarrow>
   exec_loop be (pre @ post) b st = exec_loop be post b1 st1"
  by (induction pre arbitrary: b st) (auto split: sum.splits)

lemma exec_instr_Call:
  assumes "op ins = Call"
  shows "exec_instr be ins b st =
     (if argc ins < 0 then Inl (EvalError ''Invalid CALL argc'')
      else if nat (argc ins) > length st then Inl (EvalError ''Not enough args for CALL'')
      else push_result b (drop (nat (argc ins)) st)
             (call be b (itext ins) (rev (take (nat (argc ins)) st))))"
  using assms by (simp add: exec_instr_def pop_args_take_drop)

text \<open>
  Claim C10. \<open>Program::execute\<close> does not reject a \<open>Call\<close> with \<open>argc == 0\<close>: when the
  instructions before it have run, it invokes \<open>backend.call\<close> with the empty argument vector
  and, unless the backend throws, pushes the result and goes on. For any \<open>argc\<close>, the executor
  itself raises an error at a \<open>Call\<close> only when \<open>argc\<close> is negative or exceeds the stack size;
  otherwise the arguments are the top \<open>argc\<close> values, the first-written one first.
\<close>

theorem execute_accepts_call_argc_zero:
  assumes "op ins = Call" and "exec_loop be pre b st0 = Inr (b1, st1)"
  shows "(argc ins = 0 \<longrightarrow>
            exec_loop be (pre @ ins # post) b st0 =
              (case call be b1 (itext ins) [] of
                 Inl e \<Rightarrow> Inl (e, b1)
               | Inr v \<Rightarrow> exec_loop be post b1 (v # st1)))
       \<and> exec_instr be ins b1 st1 =
            (if argc ins < 0 then Inl (EvalError ''Invalid CALL argc'')
             else if nat (argc ins) > length st1 then Inl (EvalError ''Not enough args for CALL'')
             else push_result b1 (drop (nat (argc ins)) st1)
                    (call be b1 (itext ins) (rev (take (nat (argc ins)) st1))))"
proof
  show "argc ins = 0 \<longrightarrow>
            exec_loop be (pre @ ins # post) b st0 =
              (case call be b1 (itext ins) [] of
                 Inl e \<Rightarrow> Inl (e, b1)
               | Inr v \<Rightarrow> exec_loop be post b1 (v # st1))"
    using assms
    by (auto simp: exec_loop_append exec_instr_Call push_result_def split: sum.splits)
next
  show "exec_instr be ins b1 st1 =
            (if argc ins < 0 then Inl (EvalError ''Invalid CALL argc'')
             else if nat (argc ins) > length st1 then Inl (EvalError ''Not enough args for CALL'')
             else push_result b1 (drop (nat (argc ins)) st1)
                    (call be b1 (itext ins) (rev (take (nat (argc ins)) st1))))"
    using assms(1) by (rule exec_instr_Call)
qed

text \<open>
  At the program \<open>PushNum 5; Call sumproduct 0\<close> with the example backend: the error comes from
  the backend's \<open>call\<close>, reached with no arguments, not from the executor.
\<close>

theorem execute_accepts_call_argc_zero_witness:
  "op ((instr Call)\<lparr>itext := ''sumproduct''\<rparr> :: real Instr) = Call
   \<and> exec_loop toy [(instr PushNum)\<lparr>inumber := 5\<rparr>] Map.empty []
        = Inr (Map.empty, [Scalar (5::real)])
   \<and> exec_loop toy ([(instr PushNum)\<lparr>inumber := 5\<rparr>] @ (instr Call)\<lparr>itext := ''sumproduct''\<rparr> # [])
        Map.empty []
        = Inl (RuntimeError ''sumproduct expects 2 args'', Map.empty)"
  using execute_accepts_call_argc_zero
    [of "(instr Call)\<lparr>itext := ''sumproduct''\<rparr>" toy "[(instr PushNum)\<lparr>inumber := 5\<rparr>]"
        Map.empty "[]" Map.empty "[Scalar (5::real)]" "[]"]
  by (simp add: instr_def toy_def toy_call_def exec_instr_def push_result_def)

section \<open>Evaluating the model on concrete input\<close>

lemmas lexer_eval = Lexer_next_def next_impl_def punct_def punct_expr_def isspace_def isalpha_def
  isdigit_def isalnum_def is_ident_start_def is_ident_char_def tok_def strtod_digits_def
  lex_next_def peek_def Lexer_def

lemmas tsexpr_eval = to_rpn_loop.simps to_rpn_step_def to_rpn_token_def to_rpn_def shunt_init_def
  mark_arg_def is_op_def precedence_def is_right_assoc_def tsexpr_compile_def lower_def instr_def

lemmas ts_expr_eval = compile_loop.simps compile_step_def compile_token_def shunt_init_def
  mark_expr_def is_operator_def is_function_def precedence_expr_def is_right_associative_def
  ts_expr_compile_def

lemmas execute_eval = compile_and_execute_def execute_def exec_instr_def push_result_def toy_def
  toy_load_var_def toy_store_var_def toy_neg_def toy_binary_def toy_call_def pick_def
  elementwise_def elementwise_scalar_def sumproduct_series_def

lemmas eval_rpn_eval = execute_assignment_def eval_rpn_def eval_token_def apply_binary_def
  apply_function_def arith_def negate_value_def binop_ts_ts_def binop_ts_s_def binop_s_ts_def
  sumproduct_ts_ts_def sumproduct_ts_s_def sumproduct_s_ts_def

section \<open>The tokenizer: back-tick-quoted identifiers\<close>

lemma skip_ws_spaces:
  "\<forall>x\<in>set ws. isspace x \<Longrightarrow> \<not> isspace c \<Longrightarrow> skip_ws (ws @ c # r) = c # r"
  by (induction ws) auto

lemma backtick_facts:
  "\<not> isspace (CHR 0x60)" "punct (CHR 0x60) = None"
  by (simp_all add: isspace_def punct_def)

lemma until_backtick:
  assumes "CHR 0x60 \<notin> set c"
  shows "takeWhile (\<lambda>x. x \<noteq> CHR 0x60) (c @ CHR 0x60 # r) = c"
    and "dropWhile (\<lambda>x. x \<noteq> CHR 0x60) (c @ CHR 0x60 # r) = CHR 0x60 # r"
    and "dropWhile (\<lambda>x. x \<noteq> CHR 0x60) c = []"
  using assms by (induction c) auto

text \<open>
  Claim C9. With the lexer positioned (after optional white space \<open>ws\<close>) at a back-tick, both
  lexers return an identifier token whose text is exactly the characters \<open>c\<close> up to the next
  back-tick, whatever they are, and continue after the closing back-tick; when no back-tick
  follows before the end of the input, both fail with a parse error.
\<close>

theorem backtick_identifier:
  assumes "\<forall>x\<in>set ws. isspace x" and "CHR 0x60 \<notin> set c"
  shows "Lexer_next strtod (ws @ CHR 0x60 # c @ CHR 0x60 # r) = Inr ((tok Ident)\<lparr>text' := c\<rparr>, r)
       \<and> next_impl strtod (ws @ CHR 0x60 # c @ CHR 0x60 # r) = Inr ((tok Ident)\<lparr>text' := c\<rparr>, r)
       \<and> Lexer_next strtod (ws @ CHR 0x60 # c)
           = Inl (ParseError ''Unterminated backtick identifier'')
       \<and> next_impl strtod (ws @ CHR 0x60 # c)
           = Inl (ParseError ''Unterminated backtick identifier'')"
  using assms
  by (simp add: next_impl_eq Lexer_next_def skip_ws_spaces backtick_facts until_backtick)

theorem backtick_identifier_witness:
  "isspace CHR '' '' \<and> CHR 0x60 \<notin> set ''total return''
   \<and> Lexer_next strtod_digits '' `total return` + carry''
        = Inr ((tok Ident)\<lparr>text' := ''total return''\<rparr>, '' + carry'')
   \<and> next_impl strtod_digits '' `total return''
        = Inl (ParseError ''Unterminated backtick identifier'')"
  using backtick_identifier [of "'' ''" "''total return''" strtod_digits "'' + carry''"]
  by (simp add: isspace_def)

section \<open>The executor: values left on the stack\<close>

text \<open>
  Claim C7. The input \<open>z = 1 2\<close> compiles in namespace \<open>tsexpr\<close> to the program
  \<open>PushNum 1; PushNum 2; Store z\<close>. \<open>Program::execute\<close> runs it to the end without an error,
  stores 2 under \<open>z\<close> and leaves the value 1 on its stack; \<open>eval_rpn\<close>, on the same input,
  raises the evaluation error of its final stack check.
\<close>

theorem execute_leftover_completes_silently:
  "tsexpr_compile strtod_digits ''z = 1 2''
     = Inr \<lparr>code = [(instr PushNum)\<lparr>inumber := 1\<rparr>, (instr PushNum)\<lparr>inumber := 2\<rparr>,
                    (instr Store)\<lparr>itext := ''z''\<rparr>]\<rparr>
   \<and> exec_loop toy [(instr PushNum)\<lparr>inumber := 1\<rparr>, (instr PushNum)\<lparr>inumber := 2\<rparr>,
                     (instr Store)\<lparr>itext := ''z''\<rparr>] Map.empty []
       = Inr ([''z'' \<mapsto> Scalar (2::real)], [Scalar 1])
   \<and> compile_and_execute toy strtod_digits ''z = 1 2'' Map.empty
       = (None, [''z'' \<mapsto> Scalar 2])
   \<and> fst (execute_assignment strtod_digits ''z = 1 2'' Map.empty)
       = Some (EvalError ''Expression did not reduce to a single value'')"
  by (simp add: lexer_eval tsexpr_eval ts_expr_eval execute_eval eval_rpn_eval)

section \<open>Operator precedence and unary minus\<close>

lemma pop_ops_while:
  "pop_ops k ops out =
     (dropWhile (\<lambda>tp. is_op (kind tp) \<and>
                  (if is_right_assoc k then precedence k < precedence (kind tp)
                   else precedence k \<le> precedence (kind tp))) ops,
      out @ takeWhile (\<lambda>tp. is_op (kind tp) \<and>
                  (if is_right_assoc k then precedence k < precedence (kind tp)
                   else precedence k \<le> precedence (kind tp))) ops)"
  by (induction ops arbitrary: out) auto

lemma pop_operators_while:
  "pop_operators k ops out =
     (dropWhile (\<lambda>tp. is_operator (kind tp) \<and>
                  (if is_right_associative k then precedence_expr k < precedence_expr (kind tp)
                   else precedence_expr k \<le> precedence_expr (kind tp))) ops,
      out @ takeWhile (\<lambda>tp. is_operator (kind tp) \<and>
                  (if is_right_associative k then precedence_expr k < precedence_expr (kind tp)
                   else precedence_expr k \<le> precedence_expr (kind tp))) ops)"
  by (induction ops arbitrary: out) auto

lemma to_rpn_token_operator:
  assumes "kind t = Plus \<or> kind t = Star \<or> kind t = Slash \<or> kind t = Minus \<or> kind t = Neg"
  shows "to_rpn_token t st =
     (let t1 = (if kind t = Minus \<and> expect_operand st then t\<lparr>kind := Neg\<rparr> else t)
      in Inr (st\<lparr>output' := snd (pop_ops (kind t1) (opstack st) (output' st)),
                 opstack := t1 # fst (pop_ops (kind t1) (opstack st) (output' st)),
                 expect_operand := True\<rparr>))"
  using assms
  apply (elim disjE)
  apply (simp_all add: to_rpn_token_def is_op_def Let_def case_prod_beta)
  done

lemma compile_token_operator:
  assumes "kind t = Plus \<or> kind t = Star \<or> kind t = Slash \<or> kind t = Minus \<or> kind t = Neg"
  shows "compile_token t st =
     (let t1 = (if kind t = Minus \<and> expect_operand st then t\<lparr>kind := Neg\<rparr> else t)
      in Inr (st\<lparr>output' := snd (pop_operators (kind t1) (opstack st) (output' st)),
                 opstack := t1 # fst (pop_operators (kind t1) (opstack st) (output' st)),
                 expect_operand := True\<rparr>))"
  using assms
  apply (elim disjE)
  apply (simp_all add: compile_token_def is_operator_def Let_def case_prod_beta)
  done

lemma to_rpn_token_expect:
  assumes "to_rpn_token u st = Inr st1"
  shows "expect_operand st1 = (kind u \<noteq> Number \<and> kind u \<noteq> RParen)"
proof -
  consider "kind u = Number" | "kind u = LParen" | "kind u = Comma" | "kind u = RParen"
    | "kind u = Plus \<or> kind u = Star \<or> kind u = Slash \<or> kind u = Minus \<or> kind u = Neg"
    | "kind u = Ident \<or> kind u = Assign \<or> kind u = End \<or> kind u = Func"
    by (cases "kind u") auto
  then show ?thesis
  proof cases
    case 1
    with assms show ?thesis by (auto simp: to_rpn_token_def)
  next
    case 2
    with assms show ?thesis by (auto simp: to_rpn_token_def)
  next
    case 3
    with assms show ?thesis
      by (auto simp: to_rpn_token_def case_prod_beta split: if_splits list.splits)
  next
    case 4
    with assms show ?thesis
      by (auto simp: to_rpn_token_def case_prod_beta Let_def split: if_splits list.splits)
  next
    case 5
    from assms show ?thesis
      unfolding to_rpn_token_operator [OF 5] using 5 by (auto simp: Let_def)
  next
    case 6
    with assms show ?thesis by (auto simp: to_rpn_token_def is_op_def)
  qed
qed

lemma compile_token_expect:
  assumes "compile_token u st = Inr st1"
  shows "expect_operand st1 = (kind u \<noteq> Number \<and> kind u \<noteq> RParen)"
proof -
  consider "kind u = Number" | "kind u = LParen" | "kind u = Comma" | "kind u = RParen"
    | "kind u = Plus \<or> kind u = Star \<or> kind u = Slash \<or> kind u = Minus \<or> kind u = Neg"
    | "kind u = Ident \<or> kind u = Assign \<or> kind u = End \<or> kind u = Func"
    by (cases "kind u") auto
  then show ?thesis
  proof cases
    case 1
    with assms show ?thesis by (auto simp: compile_token_def)
  next
    case 2
    with assms show ?thesis by (auto simp: compile_token_def)
  next
    case 3
    with assms show ?thesis
      by (auto simp: compile_token_def case_prod_beta split: if_splits)
  next
    case 4
    with assms show ?thesis
      by (auto simp: compile_token_def case_prod_beta Let_def split: if_splits)
  next
    case 5
    from assms show ?thesis
      unfolding compile_token_operator [OF 5] using 5 by (auto simp: Let_def)
  next
    case 6
    with assms show ?thesis by (auto simp: compile_token_def is_operator_def)
  qed
qed

lemma to_rpn_step_Ident_expect:
  assumes "to_rpn_step strtod lx u st = Inr (t', lx', st1)" and "kind u = Ident"
  shows "expect_operand st1 = (\<exists>p r. Lexer_next strtod lx = Inr (p, r) \<and> kind p = LParen)"
  using assms by (auto simp: to_rpn_step_def split: sum.splits if_splits)

lemma compile_step_Ident_expect:
  assumes "compile_step strtod L u st = Inr (L2, st1)" and "kind u = Ident"
  shows "expect_operand st1 = (\<exists>p L1. peek strtod L = Inr (p, L1) \<and> kind p = LParen)"
  using assms by (auto simp: compile_step_def split: sum.splits if_splits)

lemma unary_minus_example_ts_expr: "execute_assignment strtod_digits ''z = a * -b''
          [''a'' \<mapsto> [1, 2, 3], ''b'' \<mapsto> [10, 20, 30]]
        = (None, [''a'' \<mapsto> [1, 2, 3], ''b'' \<mapsto> [10, 20, 30], ''z'' \<mapsto> [-10, -40, -90]])"
    by (simp add: lexer_eval ts_expr_eval eval_rpn_eval)

lemma unary_minus_example_tsexpr: "compile_and_execute toy strtod_digits ''z = a * -b''
          [''a'' \<mapsto> Series [1, 2, 3], ''b'' \<mapsto> Series [10, 20, 30]]
        = (None, [''a'' \<mapsto> Series [1, 2, 3], ''b'' \<mapsto> Series [10, 20, 30],
                  ''z'' \<mapsto> Series [-10, -40, -90]])"
    by (simp add: lexer_eval tsexpr_eval execute_eval)

text \<open>
  Claim C4. In both parsers additive operators rank below multiplicative ones, which rank
  below unary negate; only \<open>Neg\<close> is right-associative. The operator loop moves to the output
  exactly the longest run of stacked operators whose precedence is at least that of the
  incoming operator, or strictly greater when the incoming operator is \<open>Neg\<close>, and an operator
  token is then pushed. Compiling and executing \<open>y = x * 3 - 4\<close> with the scalar \<open>x = 10\<close>
  stores 26 under \<open>y\<close>.
\<close>

theorem shunting_yard_precedence:
  "precedence Plus = precedence Minus \<and> precedence Minus < precedence Star
   \<and> precedence Star = precedence Slash \<and> precedence Slash < precedence Neg
   \<and> precedence_expr Plus = precedence_expr Minus \<and> precedence_expr Minus < precedence_expr Star
   \<and> precedence_expr Star = precedence_expr Slash \<and> precedence_expr Slash < precedence_expr Neg
   \<and> is_right_assoc k = (k = Neg) \<and> is_right_associative k = (k = Neg)
   \<and> pop_ops k ops out =
       (dropWhile (\<lambda>tp. is_op (kind tp) \<and>
                    (if k = Neg then precedence (kind tp) > precedence k
                     else precedence (kind tp) \<ge> precedence k)) ops,
        out @ takeWhile (\<lambda>tp. is_op (kind tp) \<and>
                    (if k = Neg then precedence (kind tp) > precedence k
                     else precedence (kind tp) \<ge> precedence k)) ops)
   \<and> pop_operators k ops out =
       (dropWhile (\<lambda>tp. is_operator (kind tp) \<and>
                    (if k = Neg then precedence_expr (kind tp) > precedence_expr k
                     else precedence_expr (kind tp) \<ge> precedence_expr k)) ops,
        out @ takeWhile (\<lambda>tp. is_operator (kind tp) \<and>
                    (if k = Neg then precedence_expr (kind tp) > precedence_expr k
                     else precedence_expr (kind tp) \<ge> precedence_expr k)) ops)
   \<and> (kind t = Plus \<or> kind t = Star \<or> kind t = Slash \<or> kind t = Neg \<longrightarrow>
        to_rpn_token t st =
          Inr (st\<lparr>output' := snd (pop_ops (kind t) (opstack st) (output' st)),
                   opstack := t # fst (pop_ops (kind t) (opstack st) (output' st)),
                   expect_operand := True\<rparr>)
        \<and> compile_token t st' =
          Inr (st'\<lparr>output' := snd (pop_operators (kind t) (opstack st') (output' st')),
                   opstack := t # fst (pop_operators (kind t) (opstack st') (output' st')),
                   expect_operand := True\<rparr>))
   \<and> compile_and_execute toy strtod_digits ''y = x * 3 - 4'' [''x'' \<mapsto> Scalar 10]
        = (None, [''x'' \<mapsto> Scalar 10, ''y'' \<mapsto> Scalar 26])"
proof -
  have ex: "compile_and_execute toy strtod_digits ''y = x * 3 - 4'' [''x'' \<mapsto> Scalar 10]
        = (None, [''x'' \<mapsto> Scalar 10, ''y'' \<mapsto> Scalar 26])"
    by (simp add: lexer_eval tsexpr_eval execute_eval)
  have p1: "pop_ops k ops out =
       (dropWhile (\<lambda>tp. is_op (kind tp) \<and>
                    (if k = Neg then precedence (kind tp) > precedence k
                     else precedence (kind tp) \<ge> precedence k)) ops,
        out @ takeWhile (\<lambda>tp. is_op (kind tp) \<and>
                    (if k = Neg then precedence (kind tp) > precedence k
                     else precedence (kind tp) \<ge> precedence k)) ops)"
    by (simp add: pop_ops_while is_right_assoc_def)
  have p2: "pop_operators k ops out =
       (dropWhile (\<lambda>tp. is_operator (kind tp) \<and>
                    (if k = Neg then precedence_expr (kind tp) > precedence_expr k
                     else precedence_expr (kind tp) \<ge> precedence_expr k)) ops,
        out @ takeWhile (\<lambda>tp. is_operator (kind tp) \<and>
                    (if k = Neg then precedence_expr (kind tp) > precedence_expr k
                     else precedence_expr (kind tp) \<ge> precedence_expr k)) ops)"
    by (simp add: pop_operators_while is_right_associative_def)
  have st: "kind t = Plus \<or> kind t = Star \<or> kind t = Slash \<or> kind t = Neg \<longrightarrow>
        to_rpn_token t st =
          Inr (st\<lparr>output' := snd (pop_ops (kind t) (opstack st) (output' st)),
                   opstack := t # fst (pop_ops (kind t) (opstack st) (output' st)),
                   expect_operand := True\<rparr>)
        \<and> compile_token t st' =
          Inr (st'\<lparr>output' := snd (pop_operators (kind t) (opstack st') (output' st')),
                   opstack := t # fst (pop_operators (kind t) (opstack st') (output' st')),
                   expect_operand := True\<rparr>)"
  proof
    assume k: "kind t = Plus \<or> kind t = Star \<or> kind t = Slash \<or> kind t = Neg"
    then have nm: "kind t \<noteq> Minus" by auto
    from k have k': "kind t = Plus \<or> kind t = Star \<or> kind t = Slash \<or> kind t = Minus \<or> kind t = Neg"
      by blast
    show "to_rpn_token t st =
          Inr (st\<lparr>output' := snd (pop_ops (kind t) (opstack st) (output' st)),
                   opstack := t # fst (pop_ops (kind t) (opstack st) (output' st)),
                   expect_operand := True\<rparr>)
        \<and> compile_token t st' =
          Inr (st'\<lparr>output' := snd (pop_operators (kind t) (opstack st') (output' st')),
                   opstack := t # fst (pop_operators (kind t) (opstack st') (output' st')),
                   expect_operand := True\<rparr>)"
      using nm by (simp add: to_rpn_token_operator [OF k'] compile_token_operator [OF k'])
  qed
  show ?thesis
    apply (intro conjI)
               apply (simp_all add: precedence_def precedence_expr_def is_right_assoc_def
                  is_right_associative_def)[10]
       apply (rule p1)
      apply (rule p2)
     apply (rule st)
    apply (rule ex)
    done
qed

text \<open>
  With \<open>*\<close> on the operator stack: an incoming \<open>+\<close> pops it, an incoming unary negate
  does not.
\<close>

theorem shunting_yard_precedence_witness:
  "kind (tok Plus :: real Token) = Plus
   \<and> to_rpn_token (tok Plus) (shunt_init\<lparr>opstack := [tok Star]\<rparr>)
       = Inr (shunt_init\<lparr>output' := [tok Star :: real Token], opstack := [tok Plus]\<rparr>)
   \<and> compile_token (tok Neg) (shunt_init\<lparr>opstack := [tok Star]\<rparr>)
       = Inr (shunt_init\<lparr>opstack := [tok Neg :: real Token, tok Star]\<rparr>)"
  using shunting_yard_precedence
          [of Plus "[tok Star :: real Token]" "[]" "tok Plus" "shunt_init\<lparr>opstack := [tok Star]\<rparr>"
              "shunt_init\<lparr>opstack := [tok Star]\<rparr>"]
        shunting_yard_precedence
          [of Neg "[tok Star :: real Token]" "[]" "tok Neg" "shunt_init\<lparr>opstack := [tok Star]\<rparr>"
              "shunt_init\<lparr>opstack := [tok Star]\<rparr>"]
  by (auto simp: tok_def shunt_init_def is_op_def is_operator_def precedence_def precedence_expr_def
        is_right_assoc_def is_right_associative_def)


text \<open>
  Claim C5. In both parsers a minus token is pushed as unary negate exactly when
  \<open>expect_operand\<close> holds, and as binary minus otherwise. \<open>expect_operand\<close> holds at the start,
  and after an iteration it holds exactly when the token processed was not an operand and not a
  closing parenthesis: after an operator, an open parenthesis, a comma, or an identifier that
  opened a call (the next token was an open parenthesis). \<open>z = a * -b\<close> with \<open>a = [1,2,3]\<close> and
  \<open>b = [10,20,30]\<close> stores \<open>[-10,-40,-90]\<close> in both pipelines.
\<close>

theorem minus_unary_iff_expect_operand:
  "(kind t = Minus \<longrightarrow>
      to_rpn_token t st =
        Inr (st\<lparr>output' := snd (pop_ops (if expect_operand st then Neg else Minus)
                                 (opstack st) (output' st)),
                 opstack := t\<lparr>kind := (if expect_operand st then Neg else Minus)\<rparr>
                            # fst (pop_ops (if expect_operand st then Neg else Minus)
                                    (opstack st) (output' st)),
                 expect_operand := True\<rparr>)
      \<and> compile_token t st' =
        Inr (st'\<lparr>output' := snd (pop_operators (if expect_operand st' then Neg else Minus)
                                  (opstack st') (output' st')),
                  opstack := t\<lparr>kind := (if expect_operand st' then Neg else Minus)\<rparr>
                             # fst (pop_operators (if expect_operand st' then Neg else Minus)
                                     (opstack st') (output' st')),
                  expect_operand := True\<rparr>))
   \<and> expect_operand (shunt_init :: ('d, FnFrame) shunt)
   \<and> expect_operand (shunt_init :: ('d, FuncCtx) shunt)
   \<and> (\<forall>st1. to_rpn_token u st = Inr st1 \<longrightarrow>
          expect_operand st1 = (kind u \<noteq> Number \<and> kind u \<noteq> RParen))
   \<and> (\<forall>st1. compile_token u st' = Inr st1 \<longrightarrow>
          expect_operand st1 = (kind u \<noteq> Number \<and> kind u \<noteq> RParen))
   \<and> (\<forall>t' lx' st1. kind u = Ident \<longrightarrow> to_rpn_step strtod lx u st = Inr (t', lx', st1) \<longrightarrow>
          expect_operand st1 = (\<exists>p r. Lexer_next strtod lx = Inr (p, r) \<and> kind p = LParen))
   \<and> (\<forall>L2 st1. kind u = Ident \<longrightarrow> compile_step strtod L u st' = Inr (L2, st1) \<longrightarrow>
          expect_operand st1 = (\<exists>p L1. peek strtod L = Inr (p, L1) \<and> kind p = LParen))
   \<and> execute_assignment strtod_digits ''z = a * -b''
          [''a'' \<mapsto> [1, 2, 3], ''b'' \<mapsto> [10, 20, 30]]
        = (None, [''a'' \<mapsto> [1, 2, 3], ''b'' \<mapsto> [10, 20, 30], ''z'' \<mapsto> [-10, -40, -90]])
   \<and> compile_and_execute toy strtod_digits ''z = a * -b''
          [''a'' \<mapsto> Series [1, 2, 3], ''b'' \<mapsto> Series [10, 20, 30]]
        = (None, [''a'' \<mapsto> Series [1, 2, 3], ''b'' \<mapsto> Series [10, 20, 30],
                  ''z'' \<mapsto> Series [-10, -40, -90]])"
proof -
  have m: "kind t = Minus \<longrightarrow>
      to_rpn_token t st =
        Inr (st\<lparr>output' := snd (pop_ops (if expect_operand st then Neg else Minus)
                                 (opstack st) (output' st)),
                 opstack := t\<lparr>kind := (if expect_operand st then Neg else Minus)\<rparr>
                            # fst (pop_ops (if expect_operand st then Neg else Minus)
                                    (opstack st) (output' st)),
                 expect_operand := True\<rparr>)
      \<and> compile_token t st' =
        Inr (st'\<lparr>output' := snd (pop_operators (if expect_operand st' then Neg else Minus)
                                  (opstack st') (output' st')),
                  opstack := t\<lparr>kind := (if expect_operand st' then Neg else Minus)\<rparr>
                             # fst (pop_operators (if expect_operand st' then Neg else Minus)
                                     (opstack st') (output' st')),
                  expect_operand := True\<rparr>)"
  proof
    assume k: "kind t = Minus"
    then have k': "kind t = Plus \<or> kind t = Star \<or> kind t = Slash \<or> kind t = Minus \<or> kind t = Neg"
      by blast
    from k have same: "t\<lparr>kind := Minus\<rparr> = t" by simp
    show "to_rpn_token t st =
        Inr (st\<lparr>output' := snd (pop_ops (if expect_operand st then Neg else Minus)
                                 (opstack st) (output' st)),
                 opstack := t\<lparr>kind := (if expect_operand st then Neg else Minus)\<rparr>
                            # fst (pop_ops (if expect_operand st then Neg else Minus)
                                    (opstack st) (output' st)),
                 expect_operand := True\<rparr>)
      \<and> compile_token t st' =
        Inr (st'\<lparr>output' := snd (pop_operators (if expect_operand st' then Neg else Minus)
                                  (opstack st') (output' st')),
                  opstack := t\<lparr>kind := (if expect_operand st' then Neg else Minus)\<rparr>
                             # fst (pop_operators (if expect_operand st' then Neg else Minus)
                                     (opstack st') (output' st')),
                  expect_operand := True\<rparr>)"
      using k same
      by (simp add: to_rpn_token_operator [OF k'] compile_token_operator [OF k'])
  qed
  have i: "expect_operand (shunt_init :: ('d, FnFrame) shunt)"
    "expect_operand (shunt_init :: ('d, FuncCtx) shunt)"
    by (simp_all add: shunt_init_def)
  have a: "\<forall>st1. to_rpn_token u st = Inr st1 \<longrightarrow>
          expect_operand st1 = (kind u \<noteq> Number \<and> kind u \<noteq> RParen)"
    using to_rpn_token_expect by blast
  have b: "\<forall>st1. compile_token u st' = Inr st1 \<longrightarrow>
          expect_operand st1 = (kind u \<noteq> Number \<and> kind u \<noteq> RParen)"
    using compile_token_expect by blast
  have c: "\<forall>t' lx' st1. kind u = Ident \<longrightarrow> to_rpn_step strtod lx u st = Inr (t', lx', st1) \<longrightarrow>
          expect_operand st1 = (\<exists>p r. Lexer_next strtod lx = Inr (p, r) \<and> kind p = LParen)"
    using to_rpn_step_Ident_expect by blast
  have d: "\<forall>L2 st1. kind u = Ident \<longrightarrow> compile_step strtod L u st' = Inr (L2, st1) \<longrightarrow>
          expect_operand st1 = (\<exists>p L1. peek strtod L = Inr (p, L1) \<and> kind p = LParen)"
    using compile_step_Ident_expect by blast
  show ?thesis
    apply (intro conjI)
            apply (rule m)
           apply (rule i(1))
          apply (rule i(2))
         apply (rule a)
        apply (rule b)
       apply (rule c)
      apply (rule d)
     apply (rule unary_minus_example_ts_expr)
    apply (rule unary_minus_example_tsexpr)
    done
qed

text \<open>
  A minus at the start of an expression is pushed as \<open>Neg\<close>; a minus after a number is pushed
  as \<open>Minus\<close>.
\<close>

theorem minus_unary_iff_expect_operand_witness:
  "kind (tok Minus :: real Token) = Minus
   \<and> to_rpn_token (tok Minus) shunt_init = Inr (shunt_init\<lparr>opstack := [tok Neg :: real Token]\<rparr>)
   \<and> to_rpn_token (tok Number) shunt_init
        = Inr (shunt_init\<lparr>output' := [tok Number :: real Token], expect_operand := False\<rparr>)
   \<and> compile_token (tok Minus)
        (shunt_init\<lparr>output' := [tok Number :: real Token], expect_operand := False\<rparr>)
        = Inr (shunt_init\<lparr>output' := [tok Number], opstack := [tok Minus]\<rparr>)
   \<and> kind ((tok Ident)\<lparr>text' := ''f''\<rparr> :: real Token) = Ident
   \<and> (\<exists>t' lx' st1. to_rpn_step strtod_digits ''(x)'' ((tok Ident)\<lparr>text' := ''f''\<rparr>) shunt_init
                        = Inr (t', lx', st1) \<and> expect_operand st1)
   \<and> (\<exists>L2 st1. compile_step strtod_digits (Lexer '' + 1'') ((tok Ident)\<lparr>text' := ''f''\<rparr>) shunt_init
                    = Inr (L2, st1) \<and> \<not> expect_operand st1)"
  using minus_unary_iff_expect_operand
          [of "tok Minus :: real Token" shunt_init
              "shunt_init\<lparr>output' := [tok Number], expect_operand := False\<rparr>"
              "tok Number" strtod_digits "[]" "Lexer []"]
        minus_unary_iff_expect_operand
          [of "tok Minus :: real Token" shunt_init shunt_init
              "(tok Ident)\<lparr>text' := ''f''\<rparr>" strtod_digits "''(x)''" "Lexer '' + 1''"]
  by (auto simp: shunt_init_def to_rpn_token_def mark_arg_def mark_expr_def to_rpn_step_def
        compile_step_def lexer_eval)

section \<open>The invariant of the operator and frame stacks in ts::expr::compile\<close>

text \<open>
  The shape that ties the operator stack to the frame stack in \<open>ts::expr::compile\<close>. Reading
  the operator stack from the top, \<open>n\<close> counts the open parentheses met since the last function
  marker and \<open>lp\<close> tells whether the token just above is an open parenthesis: every function
  marker lies directly below an open parenthesis and owns the next frame, whose \<open>depth\<close> is the
  count \<open>n\<close>.
\<close>

fun stack_ok :: "nat \<Rightarrow> bool \<Rightarrow> 'd Token list \<Rightarrow> FuncCtx list \<Rightarrow> bool" where
  "stack_ok n lp [] fs = (fs = [])"
| "stack_ok n lp (t # ts) fs =
     (if kind t = Func then
        (case fs of [] \<Rightarrow> False | f # r \<Rightarrow> lp \<and> depth f = int n \<and> stack_ok 0 False ts r)
      else stack_ok (if kind t = LParen then Suc n else n) (kind t = LParen) ts fs)"

text \<open>The number of open parentheses above the innermost function marker.\<close>

definition parens_above_call :: "'d Token list \<Rightarrow> nat" where
  "parens_above_call ops =
     length (filter (\<lambda>t. kind t = LParen) (takeWhile (\<lambda>t. kind t \<noteq> Func) ops))"

definition compile_inv :: "('d, FuncCtx) shunt \<Rightarrow> bool" where
  "compile_inv st =
     (stack_ok 0 False (opstack st) (fnstack st)
      \<and> (\<forall>f\<in>set (fnstack st). 0 \<le> commas f)
      \<and> (\<forall>t\<in>set (output' st). kind t = Func \<longrightarrow> 1 \<le> arity t))"

text \<open>
  The states at the head of the loop of \<open>ts::expr::compile\<close> on a given input: the state after
  the target and \<open>=\<close> were read, and every state one iteration later.
\<close>

inductive compile_reach ::
  "('d::zero) strtod \<Rightarrow> string \<Rightarrow> 'd Lexer \<Rightarrow> ('d, FuncCtx) shunt \<Rightarrow> bool"
  for strtod :: "('d::zero) strtod" and input :: string where
  start:
    "lex_next strtod (Lexer input) = Inr (lhs, L1) \<Longrightarrow> kind lhs = Ident \<Longrightarrow>
     lex_next strtod L1 = Inr (eq, L2) \<Longrightarrow> kind eq = Assign \<Longrightarrow>
     compile_reach strtod input L2 shunt_init"
| iterate:
    "compile_reach strtod input L st \<Longrightarrow>
     lex_next strtod L = Inr (t, L1) \<Longrightarrow> kind t \<noteq> End \<Longrightarrow>
     compile_step strtod L1 t st = Inr (L2, st') \<Longrightarrow>
     compile_reach strtod input L2 st'"

lemma stack_ok_no_frames: "stack_ok n lp ops [] = (\<forall>t\<in>set ops. kind t \<noteq> Func)"
  by (induction ops arbitrary: n lp) auto

lemma stack_ok_depth:
  "stack_ok n lp ops (f # fs) \<Longrightarrow> depth f = int (n + parens_above_call ops)"
  by (induction ops arbitrary: n lp) (auto simp: parens_above_call_def split: if_splits)

lemma stack_ok_lp_mono: "stack_ok n False ops fs \<Longrightarrow> stack_ok n lp ops fs"
  by (cases ops) (auto split: list.splits)

lemma stack_ok_shift:
  "stack_ok (Suc n) lp ops (f # fs) \<Longrightarrow> stack_ok n lp ops (f\<lparr>depth := depth f - 1\<rparr> # fs)"
  by (induction ops arbitrary: n lp) (auto split: if_splits)

lemma stack_ok_unshift:
  "stack_ok n lp ops (f # fs) \<Longrightarrow> stack_ok (Suc n) lp ops (f\<lparr>depth := depth f + 1\<rparr> # fs)"
  by (induction ops arbitrary: n lp) (auto split: if_splits)

lemma stack_ok_lp_irrelevant:
  "stack_ok n True ops (f # fs) \<Longrightarrow> depth f \<noteq> int n \<Longrightarrow> stack_ok n False ops (f # fs)"
  by (cases ops) (auto split: if_splits)

lemma stack_ok_deeper:
  "stack_ok n False ops (f # fs) \<Longrightarrow> int n < depth f"
proof (induction ops arbitrary: n)
  case Nil
  then show ?case by simp
next
  case (Cons t ts)
  show ?case
  proof (cases "kind t = LParen")
    case True
    with Cons.prems have "stack_ok (Suc n) True ts (f # fs)" by simp
    from stack_ok_depth [OF this] show ?thesis by simp
  next
    case False
    with Cons.prems have "stack_ok n False ts (f # fs)" by (auto split: if_splits)
    from Cons.IH [OF this] show ?thesis .
  qed
qed

lemma stack_ok_at_marker:
  assumes "stack_ok n lp ops (f # fs)" and "depth f = int n"
  shows "\<exists>fn r. ops = fn # r \<and> kind fn = Func \<and> stack_ok 0 False r fs"
proof (cases ops)
  case Nil
  with assms show ?thesis by simp
next
  case (Cons t ts)
  show ?thesis
  proof (cases "kind t = Func")
    case True
    with assms Cons show ?thesis by simp
  next
    case nf: False
    show ?thesis
    proof (cases "kind t = LParen")
      case True
      with assms Cons nf have "stack_ok (Suc n) True ts (f # fs)" by simp
      from stack_ok_depth [OF this] assms(2) show ?thesis by simp
    next
      case False
      with assms Cons nf have "stack_ok n False ts (f # fs)" by simp
      from stack_ok_deeper [OF this] assms(2) show ?thesis by simp
    qed
  qed
qed

lemma stack_ok_dropWhile:
  assumes "\<And>t. P t \<Longrightarrow> kind t \<noteq> Func \<and> kind t \<noteq> LParen"
  shows "stack_ok n False ops fs \<Longrightarrow> stack_ok n False (dropWhile P ops) fs"
  using assms by (induction ops) auto

lemma stack_ok_to_lparen:
  "stack_ok n False ops fs \<Longrightarrow>
     stack_ok n False (dropWhile (\<lambda>t. kind t \<noteq> LParen) ops) fs
     \<and> (\<forall>t\<in>set (takeWhile (\<lambda>t. kind t \<noteq> LParen) ops). kind t \<noteq> Func)"
  by (induction ops) (auto split: if_splits list.splits)

lemma pop_to_lparen_while:
  "pop_to_lparen ops out =
     (dropWhile (\<lambda>t. kind t \<noteq> LParen) ops, out @ takeWhile (\<lambda>t. kind t \<noteq> LParen) ops)"
  by (induction ops arbitrary: out) auto

lemma pop_through_lparen_while:
  "pop_through_lparen ops out =
     (dropWhile (\<lambda>t. kind t \<noteq> LParen) ops \<noteq> [],
      tl (dropWhile (\<lambda>t. kind t \<noteq> LParen) ops),
      out @ takeWhile (\<lambda>t. kind t \<noteq> LParen) ops)"
  by (induction ops arbitrary: out) simp_all

lemma takeWhile_all: "\<forall>t\<in>set (takeWhile P xs). P t"
  by (auto dest: set_takeWhileD)

lemma compile_inv_init: "compile_inv shunt_init"
  by (simp add: compile_inv_def shunt_init_def)

lemma stack_ok_mark_expr: "stack_ok n lp ops (mark_expr eo fs) = stack_ok n lp ops fs"
  by (induction ops arbitrary: n lp fs) (auto simp: mark_expr_def split: list.splits)

lemma commas_mark_expr:
  "(\<forall>f\<in>set (mark_expr eo fs). 0 \<le> commas f) = (\<forall>f\<in>set fs. 0 \<le> commas f)"
  by (cases fs) (auto simp: mark_expr_def)

lemma stack_ok_saw_expr:
  "stack_ok n lp ops (g\<lparr>saw_expr := b\<rparr> # r) = stack_ok n lp ops (g # r)"
  by (induction ops arbitrary: n lp) auto

lemma stack_ok_commas:
  "stack_ok n lp ops (g\<lparr>commas := c\<rparr> # r) = stack_ok n lp ops (g # r)"
  by (induction ops arbitrary: n lp) auto

lemma compile_inv_operand:
  assumes "compile_inv st" and "kind t \<noteq> Func"
  shows "compile_inv (st\<lparr>output' := output' st @ [t],
                         fnstack := mark_expr (expect_operand st) (fnstack st),
                         expect_operand := False\<rparr>)"
  using assms by (simp add: compile_inv_def stack_ok_mark_expr commas_mark_expr)

lemma compile_inv_LParen:
  assumes "compile_inv st" and "kind t = LParen"
  shows "compile_inv (st\<lparr>opstack := t # opstack st,
                fnstack :=
                  (case fnstack st of
                     [] \<Rightarrow> []
                   | f # r \<Rightarrow>
                       (let f1 = f\<lparr>depth := depth f + 1\<rparr>
                        in if depth f1 = 2 \<and> expect_operand st
                           then f1\<lparr>saw_expr := True\<rparr> # r else f1 # r)),
                expect_operand := True\<rparr>)"
proof (cases "fnstack st")
  case Nil
  with assms show ?thesis by (simp add: compile_inv_def stack_ok_no_frames)
next
  case (Cons f r)
  from assms Cons have "stack_ok 0 False (opstack st) (f # r)" by (simp add: compile_inv_def)
  then have "stack_ok 0 True (opstack st) (f # r)"
    by (rule stack_ok_lp_mono)
  then have "stack_ok (Suc 0) True (opstack st) (f\<lparr>depth := depth f + 1\<rparr> # r)"
    by (rule stack_ok_unshift)
  with assms Cons show ?thesis by (auto simp: compile_inv_def Let_def stack_ok_saw_expr)
qed

lemma compile_inv_operator:
  assumes "compile_inv st" and "is_operator (kind t1)"
    and "pop_operators (kind t1) (opstack st) (output' st) = (ops, out)"
  shows "compile_inv (st\<lparr>output' := out, opstack := t1 # ops, expect_operand := True\<rparr>)"
proof -
  define P where "P = (\<lambda>tp::'a Token. is_operator (kind tp) \<and>
                  (if is_right_associative (kind t1) then precedence_expr (kind t1) < precedence_expr (kind tp)
                   else precedence_expr (kind t1) \<le> precedence_expr (kind tp)))"
  from assms(3) have ops: "ops = dropWhile P (opstack st)"
    and out: "out = output' st @ takeWhile P (opstack st)"
    by (simp_all add: pop_operators_while P_def)
  have P: "\<And>t. P t \<Longrightarrow> kind t \<noteq> Func \<and> kind t \<noteq> LParen"
    by (auto simp: is_operator_def P_def)
  from assms(1) have "stack_ok 0 False (opstack st) (fnstack st)" by (simp add: compile_inv_def)
  from stack_ok_dropWhile [of P, OF P this]
  have 1: "stack_ok 0 False ops (fnstack st)" by (simp add: ops)
  have 2: "\<forall>t\<in>set (takeWhile P (opstack st)). kind t \<noteq> Func"
    using P takeWhile_all [of P "opstack st"] by blast
  from assms(2) have 3: "kind t1 \<noteq> Func" "kind t1 \<noteq> LParen" by (auto simp: is_operator_def)
  have a: "stack_ok 0 False (t1 # ops) (fnstack st)" using 1 3 by simp
  have b: "\<forall>t\<in>set out. kind t = Func \<longrightarrow> 1 \<le> arity t"
    using assms(1) 2 by (auto simp: compile_inv_def out)
  from a b assms(1) show ?thesis by (simp add: compile_inv_def)
qed

lemma compile_inv_Comma:
  assumes "compile_inv st" and "fnstack st \<noteq> []"
    and "pop_to_lparen (opstack st) (output' st) = (ops, out)"
  shows "compile_inv (st\<lparr>output' := out, opstack := ops,
                          fnstack := (hd (fnstack st))\<lparr>commas := commas (hd (fnstack st)) + 1\<rparr>
                                       # tl (fnstack st),
                          expect_operand := True\<rparr>)"
proof -
  from assms(2) obtain f r where fs: "fnstack st = f # r" by (cases "fnstack st") auto
  from assms(1) have ok: "stack_ok 0 False (opstack st) (fnstack st)" by (simp add: compile_inv_def)
  from assms(3) have ops: "ops = dropWhile (\<lambda>t. kind t \<noteq> LParen) (opstack st)"
    and out: "out = output' st @ takeWhile (\<lambda>t. kind t \<noteq> LParen) (opstack st)"
    by (simp_all add: pop_to_lparen_while)
  from stack_ok_to_lparen [OF ok]
  have a: "stack_ok 0 False ops (f # r)"
    and nf: "\<forall>t\<in>set (takeWhile (\<lambda>t. kind t \<noteq> LParen) (opstack st)). kind t \<noteq> Func"
    by (simp_all add: ops fs)
  have b: "\<forall>t\<in>set out. kind t = Func \<longrightarrow> 1 \<le> arity t"
    using assms(1) nf by (auto simp: compile_inv_def out)
  have c: "\<forall>g\<in>set (f\<lparr>commas := commas f + 1\<rparr> # r). 0 \<le> commas g"
    using assms(1) fs by (auto simp: compile_inv_def)
  from a b c show ?thesis by (simp add: compile_inv_def fs stack_ok_commas)
qed

lemma compile_token_RParen:
  assumes "kind t = RParen"
  shows "compile_token t st =
    (let D = dropWhile (\<lambda>t. kind t \<noteq> LParen) (opstack st);
         out = output' st @ takeWhile (\<lambda>t. kind t \<noteq> LParen) (opstack st);
         fs1 = (case fnstack st of [] \<Rightarrow> [] | f # r \<Rightarrow> f\<lparr>depth := depth f - 1\<rparr> # r)
     in if fs1 \<noteq> [] \<and> depth (hd fs1) < 0 then Inl (ParseError ''Mismatched )'')
        else if D = [] then Inl (ParseError ''Mismatched )'')
        else if fs1 \<noteq> [] \<and> depth (hd fs1) = 0 then
          (if tl D = [] \<or> \<not> is_function (kind (hd (tl D))) then
             Inl (ParseError ''Internal error: function context without function token'')
           else if \<not> saw_expr (hd fs1) then
             Inl (ParseError ''Function call has empty argument list'')
           else
             Inr (st\<lparr>output' := out @ [(hd (tl D))\<lparr>arity := commas (hd fs1) + 1\<rparr>],
                      opstack := tl (tl D), fnstack := tl fs1, expect_operand := False\<rparr>))
        else Inr (st\<lparr>output' := out, opstack := tl D, fnstack := fs1,
                      expect_operand := False\<rparr>))"
  by (simp add: compile_token_def assms pop_through_lparen_while Let_def)

lemma dropWhile_lparen_head:
  "dropWhile (\<lambda>t. kind t \<noteq> LParen) ops = lp # r \<Longrightarrow> kind lp = LParen"
  using hd_dropWhile [of "\<lambda>t. kind t \<noteq> LParen" ops] by auto

lemma compile_inv_RParen:
  assumes inv: "compile_inv st" and k: "kind t = RParen" and res: "compile_token t st = Inr st'"
  shows "compile_inv st'"
proof -
  define D where "D = dropWhile (\<lambda>t. kind t \<noteq> LParen) (opstack st)"
  define out where "out = output' st @ takeWhile (\<lambda>t. kind t \<noteq> LParen) (opstack st)"
  from inv have ok: "stack_ok 0 False (opstack st) (fnstack st)"
    and cm: "\<forall>f\<in>set (fnstack st). 0 \<le> commas f"
    and ar: "\<forall>t\<in>set (output' st). kind t = Func \<longrightarrow> 1 \<le> arity t"
    by (simp_all add: compile_inv_def)
  from stack_ok_to_lparen [OF ok] have okD: "stack_ok 0 False D (fnstack st)"
    and nf: "\<forall>t\<in>set (takeWhile (\<lambda>t. kind t \<noteq> LParen) (opstack st)). kind t \<noteq> Func"
    by (simp_all add: D_def)
  from ar nf have arout: "\<forall>t\<in>set out. kind t = Func \<longrightarrow> 1 \<le> arity t"
    by (auto simp: out_def)
  from res k have Dne: "D \<noteq> []"
    by (auto simp: compile_token_RParen D_def Let_def split: if_splits)
  then obtain lp r where D: "D = lp # r" by (cases D) auto
  then have lp: "kind lp = LParen" using dropWhile_lparen_head [of "opstack st" lp r]
    by (simp add: D_def)
  show ?thesis
  proof (cases "fnstack st")
    case Nil
    with res k D have st': "st' = st\<lparr>output' := out, opstack := r, fnstack := [],
                                      expect_operand := False\<rparr>"
      by (auto simp: compile_token_RParen D_def [symmetric] out_def [symmetric] Let_def)
    from okD Nil D lp have "stack_ok 0 False r []"
      by (simp add: stack_ok_no_frames)
    with arout show ?thesis by (simp add: compile_inv_def st')
  next
    case (Cons f rest)
    from okD Cons D lp have ok1: "stack_ok (Suc 0) True r (f # rest)" by simp
    from stack_ok_depth [OF ok1] have d1: "1 \<le> depth f" by simp
    show ?thesis
    proof (cases "depth f = 1")
      case True
      from stack_ok_at_marker [OF ok1] True obtain fn r' where
        r: "r = fn # r'" and fn: "kind fn = Func" and ok2: "stack_ok 0 False r' rest"
        by auto
      from res k D Cons True r fn
      have st': "st' = st\<lparr>output' := out @ [fn\<lparr>arity := commas f + 1\<rparr>], opstack := r',
                           fnstack := rest, expect_operand := False\<rparr>"
        by (auto simp: compile_token_RParen D_def [symmetric] out_def [symmetric] Let_def
              is_function_def split: if_splits)
      from cm Cons have "0 \<le> commas f" "\<forall>g\<in>set rest. 0 \<le> commas g" by simp_all
      with ok2 arout show ?thesis by (simp add: compile_inv_def st')
    next
      case False
      with d1 have d2: "depth f - 1 \<noteq> 0" "\<not> depth f - 1 < 0" by simp_all
      from res k D Cons d2
      have st': "st' = st\<lparr>output' := out, opstack := r,
                           fnstack := f\<lparr>depth := depth f - 1\<rparr> # rest,
                           expect_operand := False\<rparr>"
        by (auto simp: compile_token_RParen D_def [symmetric] out_def [symmetric] Let_def)
      from stack_ok_shift [OF ok1]
      have "stack_ok 0 True r (f\<lparr>depth := depth f - 1\<rparr> # rest)" .
      then have "stack_ok 0 False r (f\<lparr>depth := depth f - 1\<rparr> # rest)"
        using d2 by (intro stack_ok_lp_irrelevant) simp_all
      moreover from cm Cons have "\<forall>g\<in>set (f\<lparr>depth := depth f - 1\<rparr> # rest). 0 \<le> commas g"
        by simp
      ultimately show ?thesis using arout by (simp add: compile_inv_def st')
    qed
  qed
qed

lemma compile_inv_token:
  assumes inv: "compile_inv st" and res: "compile_token t st = Inr st'"
  shows "compile_inv st'"
proof -
  consider "kind t = Number" | "kind t = LParen" | "kind t = Comma" | "kind t = RParen"
    | "kind t = Plus \<or> kind t = Star \<or> kind t = Slash \<or> kind t = Minus \<or> kind t = Neg"
    | "kind t = Ident \<or> kind t = Assign \<or> kind t = End \<or> kind t = Func"
    by (cases "kind t") auto
  then show ?thesis
  proof cases
    case 1
    then have nf: "kind t \<noteq> Func" by simp
    from 1 res have "st' = st\<lparr>output' := output' st @ [t],
                         fnstack := mark_expr (expect_operand st) (fnstack st),
                         expect_operand := False\<rparr>"
      by (simp add: compile_token_def)
    with compile_inv_operand [OF inv nf] show ?thesis by simp
  next
    case 2
    with res compile_inv_LParen [OF inv 2] show ?thesis
      by (simp add: compile_token_def)
  next
    case 3
    obtain ops out where p: "pop_to_lparen (opstack st) (output' st) = (ops, out)"
      by (cases "pop_to_lparen (opstack st) (output' st)") auto
    from res 3 p have ne: "fnstack st \<noteq> []"
      and "st' = st\<lparr>output' := out, opstack := ops,
                          fnstack := (hd (fnstack st))\<lparr>commas := commas (hd (fnstack st)) + 1\<rparr>
                                       # tl (fnstack st),
                          expect_operand := True\<rparr>"
      by (auto simp: compile_token_def split: if_splits)
    with compile_inv_Comma [OF inv ne p] show ?thesis by simp
  next
    case 4
    from compile_inv_RParen [OF inv 4 res] show ?thesis .
  next
    case 5
    define t1 where "t1 = (if kind t = Minus \<and> expect_operand st then t\<lparr>kind := Neg\<rparr> else t)"
    obtain ops out where p: "pop_operators (kind t1) (opstack st) (output' st) = (ops, out)"
      by (cases "pop_operators (kind t1) (opstack st) (output' st)") auto
    from 5 have op1: "is_operator (kind t1)" by (auto simp: t1_def is_operator_def)
    from res p have "st' = st\<lparr>output' := out, opstack := t1 # ops, expect_operand := True\<rparr>"
      unfolding compile_token_operator [OF 5] by (simp add: Let_def t1_def [symmetric])
    with compile_inv_operator [OF inv op1 p] show ?thesis by simp
  next
    case 6
    with res show ?thesis by (auto simp: compile_token_def is_operator_def)
  qed
qed

lemma punct_kind:
  "punct c = Some k \<Longrightarrow> k \<noteq> Func \<and> k \<noteq> Neg \<and> k \<noteq> End \<and> k \<noteq> Ident \<and> k \<noteq> Number"
  by (auto simp: punct_def split: if_splits)

lemma Lexer_next_kind:
  assumes "Lexer_next strtod s = Inr (t, r)"
  shows "kind t \<noteq> Func \<and> kind t \<noteq> Neg"
proof (cases "skip_ws s")
  case Nil
  with assms show ?thesis by (auto simp: Lexer_next_def tok_def)
next
  case (Cons c cs)
  show ?thesis
  proof (cases "punct c")
    case (Some k)
    with assms Cons punct_kind [OF Some] show ?thesis by (auto simp: Lexer_next_def tok_def)
  next
    case None
    with assms Cons have "kind t = Ident \<or> kind t = Number"
      by (auto simp: Lexer_next_def tok_def split: if_splits list.splits prod.splits)
    then show ?thesis by auto
  qed
qed

lemma peek_then_next:
  "peek strtod L = Inr (p, L1) \<Longrightarrow> lex_next strtod L1 = Inr (p, L1\<lparr>lookahead := None\<rparr>)"
  by (auto simp: peek_def lex_next_def split: option.splits sum.splits)

lemma compile_inv_step:
  assumes inv: "compile_inv st" and res: "compile_step strtod L t st = Inr (L2, st')"
  shows "compile_inv st'"
proof (cases "kind t = Ident")
  case False
  with res obtain "compile_token t st = Inr st'"
    by (auto simp: compile_step_def split: sum.splits)
  with inv show ?thesis by (rule compile_inv_token)
next
  case True
  with res obtain p L1 where p: "peek strtod L = Inr (p, L1)"
    by (auto simp: compile_step_def split: sum.splits)
  show ?thesis
  proof (cases "kind p = LParen")
    case False
    with res True p have "st' = st\<lparr>output' := output' st @ [t],
                      fnstack := mark_expr (expect_operand st) (fnstack st),
                      expect_operand := False\<rparr>"
      by (simp add: compile_step_def)
    moreover from True have "kind t \<noteq> Func" by simp
    ultimately show ?thesis using compile_inv_operand [OF inv] by simp
  next
    case lp: True
    from res True p lp peek_then_next [OF p]
    have st': "st' = st\<lparr>opstack := p # (tok Func)\<lparr>text' := text' t\<rparr> # opstack st,
                           fnstack := \<lparr>commas = 0, depth = 1, saw_expr = False\<rparr> # fnstack st,
                           expect_operand := True\<rparr>"
      by (simp add: compile_step_def)
    from inv lp show ?thesis by (simp add: compile_inv_def st' tok_def)
  qed
qed

lemma compile_reach_inv: "compile_reach strtod input L st \<Longrightarrow> compile_inv st"
  by (induction rule: compile_reach.induct) (auto intro: compile_inv_init compile_inv_step)

lemma compile_loop_inv:
  "compile_inv st \<Longrightarrow> compile_loop strtod L st = Inr st' \<Longrightarrow> compile_inv st'"
proof (induction strtod L st rule: compile_loop.induct)
  case (1 strtod L st)
  from "1.prems"(2) obtain t L1 where n: "lex_next strtod L = Inr (t, L1)"
    by (subst (asm) compile_loop.simps) (auto split: sum.splits)
  show ?case
  proof (cases "kind t = End")
    case True
    with "1.prems" n show ?thesis by (subst (asm) compile_loop.simps) simp
  next
    case False
    with "1.prems"(2) n obtain L2 st2 where s: "compile_step strtod L1 t st = Inr (L2, st2)"
      and l: "compile_loop strtod L2 st2 = Inr st'"
      by (subst (asm) compile_loop.simps) (auto split: sum.splits)
    from compile_inv_step [OF "1.prems"(1) s] have "compile_inv st2" .
    from "1.IH" [OF n refl False s refl this l] show ?thesis .
  qed
qed

lemma drain_result:
  "drain ops out = Inr r \<Longrightarrow> r = out @ ops \<and> (\<forall>t\<in>set ops. kind t \<noteq> LParen \<and> kind t \<noteq> Func)"
proof (induction ops arbitrary: out)
  case Nil
  then show ?case by simp
next
  case (Cons a ops)
  from Cons.prems have k: "kind a \<noteq> LParen" "kind a \<noteq> Func"
    and d: "drain ops (out @ [a]) = Inr r"
    by (auto split: if_splits)
  from Cons.IH [OF d] k show ?case by simp
qed

text \<open>What \<open>ts::expr::compile\<close> returns once its loop has returned.\<close>

definition compile_finish ::
  "'d Token \<Rightarrow> error + ('d, FuncCtx) shunt \<Rightarrow> error + 'd Compiled" where
  "compile_finish lhs r =
    (case r of
       Inl e \<Rightarrow> Inl e
     | Inr st \<Rightarrow>
         (case drain (opstack st) (output' st) of
            Inl e \<Rightarrow> Inl e
          | Inr out \<Rightarrow> Inr \<lparr>target = text' lhs, rpn = out\<rparr>))"

lemma compile_reach_result:
  "compile_reach strtod input L st \<Longrightarrow>
     \<exists>lhs. ts_expr_compile strtod input = compile_finish lhs (compile_loop strtod L st)"
proof (induction rule: compile_reach.induct)
  case (start lhs L1 eq L2)
  then have "ts_expr_compile strtod input = compile_finish lhs (compile_loop strtod L2 shunt_init)"
    by (simp add: ts_expr_compile_def compile_finish_def)
  then show ?case ..
next
  case (iterate L st t L1 L2 st')
  from iterate.hyps(2-4) have "compile_loop strtod L st = compile_loop strtod L2 st'"
    by (subst compile_loop.simps) simp
  with iterate.IH show ?case by simp
qed

lemma ts_expr_compile_Inr:
  assumes "ts_expr_compile strtod input = Inr c"
  shows "\<exists>L2 st. compile_reach strtod input L2 shunt_init
           \<and> compile_loop strtod L2 shunt_init = Inr st
           \<and> drain (opstack st) (output' st) = Inr (rpn c)"
proof -
  from assms obtain lhs L1 where 1: "lex_next strtod (Lexer input) = Inr (lhs, L1)"
    by (auto simp: ts_expr_compile_def split: sum.splits)
  with assms have 2: "kind lhs = Ident"
    by (auto simp: ts_expr_compile_def split: if_splits)
  with assms 1 obtain eq L2 where 3: "lex_next strtod L1 = Inr (eq, L2)"
    by (auto simp: ts_expr_compile_def split: sum.splits)
  with assms 1 2 have 4: "kind eq = Assign"
    by (auto simp: ts_expr_compile_def split: if_splits)
  with assms 1 2 3 obtain st where 5: "compile_loop strtod L2 shunt_init = Inr st"
    by (auto simp: ts_expr_compile_def split: sum.splits)
  with assms 1 2 3 4 have 6: "drain (opstack st) (output' st) = Inr (rpn c)"
    by (auto simp: ts_expr_compile_def split: sum.splits)
  from compile_reach.start [OF 1 2 3 4] 5 6 show ?thesis by blast
qed

lemma ts_expr_compile_arity:
  assumes "ts_expr_compile strtod input = Inr c"
  shows "\<forall>t\<in>set (rpn c). kind t = Func \<longrightarrow> 1 \<le> arity t"
proof -
  from ts_expr_compile_Inr [OF assms] obtain L2 st where
    l: "compile_loop strtod L2 shunt_init = Inr st"
    and d: "drain (opstack st) (output' st) = Inr (rpn c)" by blast
  from compile_loop_inv [OF compile_inv_init l] have "compile_inv st" .
  with drain_result [OF d] show ?thesis by (auto simp: compile_inv_def)
qed

lemma ident_start_facts:
  assumes "is_ident_start c"
  shows "\<not> isspace c" and "punct c = None" and "c \<noteq> CHR 0x60"
  using assms
  by (auto simp: is_ident_start_def isalpha_def isspace_def punct_def Let_def)

lemma Lexer_next_ident:
  assumes "is_ident_start c" and "\<forall>x\<in>set cs. is_ident_char x" and "\<not> is_ident_char d"
  shows "Lexer_next strtod (c # cs @ d # r) = Inr ((tok Ident)\<lparr>text' := c # cs\<rparr>, d # r)"
proof -
  from assms(2,3) have "takeWhile is_ident_char (cs @ d # r) = cs"
    and "dropWhile is_ident_char (cs @ d # r) = d # r"
    by (induction cs) auto
  with assms(1) ident_start_facts [OF assms(1)] show ?thesis
    by (simp add: Lexer_next_def)
qed

lemma empty_call_tsexpr:
  assumes "is_ident_start c" and "\<forall>x\<in>set cs. is_ident_char x"
  shows "tsexpr_compile strtod (''z = '' @ (c # cs) @ ''()'')
           = Inr \<lparr>code = [(instr Call)\<lparr>itext := c # cs\<rparr>, (instr Store)\<lparr>itext := ''z''\<rparr>]\<rparr>"
proof -
  have np: "\<not> is_ident_char CHR ''(''"
    by (simp add: is_ident_char_def isalnum_def isalpha_def isdigit_def)
  have 1: "Lexer_next strtod (''z = '' @ (c # cs) @ ''()'')
             = Inr ((tok Ident)\<lparr>text' := ''z''\<rparr>, '' = '' @ (c # cs) @ ''()'')"
    by (simp add: lexer_eval)
  have 2: "Lexer_next strtod ('' = '' @ (c # cs) @ ''()'') = Inr (tok Assign, '' '' @ (c # cs) @ ''()'')"
    by (simp add: lexer_eval)
  have 3: "Lexer_next strtod ('' '' @ (c # cs) @ ''()'')
             = Inr ((tok Ident)\<lparr>text' := c # cs\<rparr>, ''()'')"
    using Lexer_next_ident [OF assms np, of strtod "'')''"] ident_start_facts(1) [OF assms(1)]
    by (simp add: Lexer_next_def isspace_def)
  have 4: "Lexer_next strtod ''()'' = Inr (tok LParen, '')'')"
    "Lexer_next strtod '')'' = Inr (tok RParen, [])"
    "Lexer_next strtod [] = Inr (tok End, [])"
    by (simp_all add: lexer_eval)
  from 1 2 3 show ?thesis
    by (simp add: tsexpr_compile_def 4 tok_def to_rpn_def to_rpn_loop.simps to_rpn_step_def to_rpn_token_def
          shunt_init_def mark_arg_def lower_def instr_def)
qed


lemma empty_call_ts_expr:
  assumes "is_ident_start c" and "\<forall>x\<in>set cs. is_ident_char x"
  shows "ts_expr_compile strtod (''z = '' @ (c # cs) @ ''()'')
           = Inl (ParseError ''Function call has empty argument list'')"
proof -
  have np: "\<not> is_ident_char CHR ''(''"
    by (simp add: is_ident_char_def isalnum_def isalpha_def isdigit_def)
  have 1: "Lexer_next strtod (''z = '' @ (c # cs) @ ''()'')
             = Inr ((tok Ident)\<lparr>text' := ''z''\<rparr>, '' = '' @ (c # cs) @ ''()'')"
    by (simp add: lexer_eval)
  have 2: "Lexer_next strtod ('' = '' @ (c # cs) @ ''()'') = Inr (tok Assign, '' '' @ (c # cs) @ ''()'')"
    by (simp add: lexer_eval)
  have 3: "Lexer_next strtod ('' '' @ (c # cs) @ ''()'')
             = Inr ((tok Ident)\<lparr>text' := c # cs\<rparr>, ''()'')"
    using Lexer_next_ident [OF assms np, of strtod "'')''"] ident_start_facts(1) [OF assms(1)]
    by (simp add: Lexer_next_def isspace_def)
  have 4: "Lexer_next strtod ''()'' = Inr (tok LParen, '')'')"
    "Lexer_next strtod '')'' = Inr (tok RParen, [])"
    "Lexer_next strtod [] = Inr (tok End, [])"
    by (simp_all add: lexer_eval)
  from 1 2 3 show ?thesis
    by (simp add: ts_expr_compile_def next_impl_eq lex_next_def peek_def Lexer_def 4 tok_def
          compile_loop.simps compile_step_def compile_token_def shunt_init_def is_function_def)
qed

lemma compile_token_Comma:
  assumes "kind t = Comma"
  shows "compile_token t st =
    (if fnstack st = [] \<or> depth (hd (fnstack st)) \<noteq> 1 then
       Inl (ParseError ''Unexpected , (commas are only valid inside function argument lists)'')
     else if dropWhile (\<lambda>t. kind t \<noteq> LParen) (opstack st) = [] then
       Inl (ParseError ''Unexpected ,'')
     else
       Inr (st\<lparr>output' := output' st @ takeWhile (\<lambda>t. kind t \<noteq> LParen) (opstack st),
                opstack := dropWhile (\<lambda>t. kind t \<noteq> LParen) (opstack st),
                fnstack := (hd (fnstack st))\<lparr>commas := commas (hd (fnstack st)) + 1\<rparr>
                             # tl (fnstack st),
                expect_operand := True\<rparr>))"
  using assms by (simp add: compile_token_def pop_to_lparen_while)

lemma comma_accepted_iff:
  assumes inv: "compile_inv st" and k: "kind t = Comma"
  shows "(\<exists>st'. compile_token t st = Inr st')
           = (fnstack st \<noteq> [] \<and> parens_above_call (opstack st) = 1)"
proof (cases "fnstack st")
  case Nil
  with k show ?thesis by (simp add: compile_token_Comma)
next
  case (Cons f r)
  from inv Cons have ok: "stack_ok 0 False (opstack st) (f # r)" by (simp add: compile_inv_def)
  from stack_ok_depth [OF ok] have d: "depth f = int (parens_above_call (opstack st))" by simp
  from stack_ok_to_lparen [OF ok]
  have okD: "stack_ok 0 False (dropWhile (\<lambda>t. kind t \<noteq> LParen) (opstack st)) (f # r)" by simp
  have ne: "dropWhile (\<lambda>t. kind t \<noteq> LParen) (opstack st) \<noteq> []"
  proof
    assume e: "dropWhile (\<lambda>t. kind t \<noteq> LParen) (opstack st) = []"
    from okD show False unfolding e by simp
  qed
  from k Cons d ne show ?thesis by (auto simp: compile_token_Comma)
qed

lemma comma_rejected_iff:
  assumes k: "kind t = Comma"
  shows "(\<exists>m. compile_token t st = Inl (ParseError m)) = (\<not> (\<exists>st'. compile_token t st = Inr st'))"
  using k by (simp add: compile_token_Comma)

lemma comma_counts:
  assumes k: "kind t = Comma" and res: "compile_token t st = Inr st'"
  shows "map commas (fnstack st') = (commas (hd (fnstack st)) + 1) # map commas (tl (fnstack st))
         \<and> map depth (fnstack st') = map depth (fnstack st)"
proof -
  from res k have "fnstack st \<noteq> []" by (auto simp: compile_token_Comma split: if_splits)
  then obtain f r where "fnstack st = f # r" by (cases "fnstack st") auto
  with res k show ?thesis by (auto simp: compile_token_Comma split: if_splits)
qed

lemma map_commas_mark_expr: "map commas (mark_expr eo fs) = map commas fs"
  by (cases fs) (simp_all add: mark_expr_def)

lemma other_tokens_keep_counts:
  assumes nk: "kind t \<noteq> Comma" and res: "compile_token t st = Inr st'"
  shows "map commas (fnstack st') = map commas (fnstack st)
         \<or> map commas (fnstack st') = tl (map commas (fnstack st))"
proof -
  consider "kind t = Number" | "kind t = LParen" | "kind t = RParen"
    | "kind t = Plus \<or> kind t = Star \<or> kind t = Slash \<or> kind t = Minus \<or> kind t = Neg"
    | "kind t = Ident \<or> kind t = Assign \<or> kind t = End \<or> kind t = Func"
    using nk by (cases "kind t") auto
  then show ?thesis
  proof cases
    case 1
    with res show ?thesis by (auto simp: compile_token_def map_commas_mark_expr)
  next
    case 2
    with res show ?thesis by (auto simp: compile_token_def Let_def split: list.splits)
  next
    case 3
    with res show ?thesis
      by (cases "fnstack st") (auto simp: compile_token_RParen Let_def split: if_splits)
  next
    case 4
    from res show ?thesis
      unfolding compile_token_operator [OF 4] by (auto simp: Let_def)
  next
    case 5
    with res show ?thesis by (auto simp: compile_token_def is_operator_def)
  qed
qed

lemma identifier_keeps_counts:
  assumes "kind t = Ident" and "compile_step strtod L t st = Inr (L2, st')"
  shows "map commas (fnstack st') = map commas (fnstack st)
         \<or> map commas (fnstack st') = 0 # map commas (fnstack st)"
  using assms
  by (auto simp: compile_step_def map_commas_mark_expr split: sum.splits if_splits)

lemma call_close_arity:
  assumes k: "kind t = RParen" and res: "compile_token t st = Inr st'"
    and cl: "length (fnstack st') < length (fnstack st)"
  shows "kind (last (output' st')) = Func
         \<and> arity (last (output' st')) = commas (hd (fnstack st)) + 1"
proof (cases "fnstack st")
  case Nil
  with cl show ?thesis by simp
next
  case (Cons f r)
  with res k cl show ?thesis
    by (auto simp: compile_token_RParen Let_def is_function_def split: if_splits)
qed

lemma to_rpn_token_Comma:
  assumes "kind t = Comma"
  shows "to_rpn_token t st =
    (if dropWhile (\<lambda>t. kind t \<noteq> LParen) (opstack st) = [] then
       Inl (ParseError ''Comma not within function call'')
     else if fnstack st = [] then
       Inl (ParseError ''Internal error: comma with no function frame'')
     else
       Inr (st\<lparr>output' := output' st @ takeWhile (\<lambda>t. kind t \<noteq> LParen) (opstack st),
                opstack := dropWhile (\<lambda>t. kind t \<noteq> LParen) (opstack st),
                fnstack := (hd (fnstack st))\<lparr>fn_argc := fn_argc (hd (fnstack st)) + 1\<rparr>
                             # tl (fnstack st),
                expect_operand := True\<rparr>))"
  using assms by (cases "fnstack st") (simp_all add: to_rpn_token_def pop_to_lparen_while)

lemma to_rpn_token_RParen:
  assumes "kind t = RParen"
  shows "to_rpn_token t st =
    (let D = dropWhile (\<lambda>t. kind t \<noteq> LParen) (opstack st);
         out = output' st @ takeWhile (\<lambda>t. kind t \<noteq> LParen) (opstack st)
     in if D = [] then Inl (ParseError ''Mismatched )'')
        else if tl D \<noteq> [] \<and> kind (hd (tl D)) = Func then
          (if fnstack st = [] then
             Inl (ParseError ''Internal error: function close with no frame'')
           else
             Inr (st\<lparr>output' := out @ [(hd (tl D))\<lparr>arity :=
                                   (if saw_any_arg (hd (fnstack st))
                                    then fn_argc (hd (fnstack st)) + 1 else 0)\<rparr>],
                      opstack := tl (tl D),
                      fnstack := mark_arg (tl (fnstack st)),
                      expect_operand := False\<rparr>))
        else Inr (st\<lparr>output' := out, opstack := tl D, expect_operand := False\<rparr>))"
proof -
  define D where "D = dropWhile (\<lambda>t. kind t \<noteq> LParen) (opstack st)"
  show ?thesis
    using assms
    by (cases "fnstack st"; cases D)
       (simp_all add: to_rpn_token_def pop_to_lparen_while Let_def D_def [symmetric])
qed

lemma to_rpn_comma_rejected:
  assumes "kind t = Comma"
    and "(\<forall>x\<in>set (opstack st). kind x \<noteq> LParen) \<or> fnstack st = []"
  shows "\<exists>m. to_rpn_token t st = Inl (ParseError m)"
  using assms by (auto simp: to_rpn_token_Comma)

lemma to_rpn_comma_counts:
  assumes "kind t = Comma" and "to_rpn_token t st = Inr st'"
  shows "map fn_argc (fnstack st') = (fn_argc (hd (fnstack st)) + 1) # map fn_argc (tl (fnstack st))"
  using assms by (auto simp: to_rpn_token_Comma split: if_splits)

lemma length_mark_arg: "length (mark_arg fs) = length fs"
  by (cases fs) (simp_all add: mark_arg_def)

lemma to_rpn_close_arity:
  assumes k: "kind t = RParen" and res: "to_rpn_token t st = Inr st'"
    and cl: "length (fnstack st') < length (fnstack st)"
  shows "kind (last (output' st')) = Func
         \<and> arity (last (output' st'))
             = (if saw_any_arg (hd (fnstack st)) then fn_argc (hd (fnstack st)) + 1 else 0)"
  using assms
  by (auto simp: to_rpn_token_RParen Let_def length_mark_arg split: if_splits)

section \<open>Every error of \<open>ts::expr::compile\<close> is a parse error\<close>

lemma Lexer_next_error: "Lexer_next strtod s = Inl e \<Longrightarrow> \<exists>m. e = ParseError m"
  by (auto simp: Lexer_next_def split: list.splits option.splits if_splits prod.splits)

lemma lex_next_error: "lex_next strtod L = Inl e \<Longrightarrow> \<exists>m. e = ParseError m"
  by (auto simp: lex_next_def next_impl_eq split: option.splits sum.splits
        dest: Lexer_next_error)

lemma peek_error: "peek strtod L = Inl e \<Longrightarrow> \<exists>m. e = ParseError m"
  by (auto simp: peek_def next_impl_eq split: option.splits sum.splits
        dest: Lexer_next_error)

lemma compile_token_error:
  assumes "compile_token t st = Inl e"
  shows "\<exists>m. e = ParseError m"
proof -
  consider "kind t = Number" | "kind t = LParen" | "kind t = Comma" | "kind t = RParen"
    | "kind t = Plus \<or> kind t = Star \<or> kind t = Slash \<or> kind t = Minus \<or> kind t = Neg"
    | "kind t = Ident \<or> kind t = Assign \<or> kind t = End \<or> kind t = Func"
    by (cases "kind t") auto
  then show ?thesis
  proof cases
    case 1
    with assms show ?thesis by (simp add: compile_token_def)
  next
    case 2
    with assms show ?thesis by (simp add: compile_token_def)
  next
    case 3
    with assms show ?thesis by (auto simp: compile_token_Comma split: if_splits)
  next
    case 4
    with assms show ?thesis by (auto simp: compile_token_RParen Let_def split: if_splits)
  next
    case 5
    from assms show ?thesis
      unfolding compile_token_operator [OF 5] by (simp add: Let_def)
  next
    case 6
    with assms show ?thesis by (auto simp: compile_token_def is_operator_def split: if_splits)
  qed
qed

lemma compile_step_error:
  assumes "compile_step strtod L t st = Inl e"
  shows "\<exists>m. e = ParseError m"
proof (cases "kind t = Ident")
  case False
  with assms have "compile_token t st = Inl e"
    by (auto simp: compile_step_def split: sum.splits)
  then show ?thesis by (rule compile_token_error)
next
  case True
  show ?thesis
  proof (cases "peek strtod L")
    case (Inl x)
    with assms True have "x = e" by (simp add: compile_step_def)
    with peek_error [OF Inl] show ?thesis by simp
  next
    case (Inr pr)
    obtain p L1 where pr: "pr = (p, L1)" by (cases pr)
    from assms True Inr pr have "lex_next strtod L1 = Inl e"
      by (auto simp: compile_step_def split: if_splits sum.splits)
    then show ?thesis by (rule lex_next_error)
  qed
qed




section \<open>Function calls with empty parentheses\<close>

text \<open>
  The token stream that starts with the token \<open>t\<close> and continues with the tokens of \<open>lx\<close>
  contains, before its end and before any lexical error, an identifier directly followed by
  an open and a close parenthesis: a function call with syntactically empty parentheses.
\<close>

function has_empty_call :: "('d::zero) strtod \<Rightarrow> string \<Rightarrow> 'd Token \<Rightarrow> bool" where
  "has_empty_call strtod lx t =
    (if kind t = End then False
     else
       (case Lexer_next strtod lx of
          Inl e \<Rightarrow> False
        | Inr (p, lx1) \<Rightarrow>
            (kind t = Ident \<and> kind p = LParen
               \<and> (case Lexer_next strtod lx1 of
                     Inl e \<Rightarrow> False
                   | Inr (q, lx2) \<Rightarrow> kind q = RParen))
            \<or> has_empty_call strtod lx1 p))"
  by pat_completeness auto
termination
  apply (relation "measure (\<lambda>(strtod, lx, t). length lx + (if kind t = End then 0 else 1))")
   apply simp
  subgoal for strtod lx t x2 p lx1
    using Lexer_next_length [of strtod lx p lx1] by simp
  done

declare has_empty_call.simps [simp del]

text \<open>The expression of the input, after the target and \<open>=\<close>, contains an empty call.\<close>

definition contains_empty_call :: "('d::zero) strtod \<Rightarrow> string \<Rightarrow> bool" where
  "contains_empty_call strtod input =
    (case Lexer_next strtod input of
       Inl e \<Rightarrow> False
     | Inr (lhs, lx1) \<Rightarrow>
         (case Lexer_next strtod lx1 of
            Inl e \<Rightarrow> False
          | Inr (eq, lx2) \<Rightarrow>
              (case Lexer_next strtod lx2 of
                 Inl e \<Rightarrow> False
               | Inr (first, lx3) \<Rightarrow> has_empty_call strtod lx3 first)))"

lemma empty_call_here_ts_expr:
  assumes t: "kind t = Ident"
    and p: "Lexer_next strtod lx = Inr (p, lx1)" "kind p = LParen"
    and q: "Lexer_next strtod lx1 = Inr (q, lx2)" "kind q = RParen"
    and L: "lex_next strtod L = Inr (t, \<lparr>remaining = lx, lookahead = None\<rparr>)"
  shows "compile_loop strtod L st = Inl (ParseError ''Function call has empty argument list'')"
proof -
  let ?L1 = "\<lparr>remaining = lx, lookahead = None\<rparr> :: 'a Lexer"
  let ?L2 = "\<lparr>remaining = lx1, lookahead = None\<rparr> :: 'a Lexer"
  let ?L3 = "\<lparr>remaining = lx2, lookahead = None\<rparr> :: 'a Lexer"
  let ?st1 = "st\<lparr>opstack := p # (tok Func)\<lparr>text' := text' t\<rparr> # opstack st,
                  fnstack := \<lparr>commas = 0, depth = 1, saw_expr = False\<rparr> # fnstack st,
                  expect_operand := True\<rparr>"
  have s1: "compile_step strtod ?L1 t st = Inr (?L2, ?st1)"
    using t p by (simp add: compile_step_def peek_def lex_next_def next_impl_eq)
  have n2: "lex_next strtod ?L2 = Inr (q, ?L3)"
    using q by (simp add: lex_next_def next_impl_eq)
  have c: "compile_token q ?st1 = Inl (ParseError ''Function call has empty argument list'')"
    using q(2) p(2) by (simp add: compile_token_RParen Let_def is_function_def tok_def)
  have s2: "compile_step strtod ?L3 q ?st1
              = Inl (ParseError ''Function call has empty argument list'')"
    using q(2) c by (simp add: compile_step_def)
  have "compile_loop strtod L st = compile_loop strtod ?L2 ?st1"
    using L t s1 by (simp add: compile_loop.simps [of strtod L st])
  also have "\<dots> = Inl (ParseError ''Function call has empty argument list'')"
    using n2 q(2) s2 by (simp add: compile_loop.simps [of strtod ?L2 ?st1])
  finally show ?thesis .
qed

lemma empty_call_here_tsexpr:
  assumes t: "kind t = Ident"
    and p: "Lexer_next strtod lx = Inr (p, lx1)" "kind p = LParen"
    and q: "Lexer_next strtod lx1 = Inr (q, lx2)" "kind q = RParen"
    and u: "Lexer_next strtod lx2 = Inr (u, lx3)"
  shows "to_rpn_loop strtod lx t st =
           to_rpn_loop strtod lx3 u
             (st\<lparr>output' := output' st @ [(tok Func)\<lparr>text' := text' t, arity := 0\<rparr>],
                 fnstack := mark_arg (fnstack st),
                 expect_operand := False\<rparr>)"
proof -
  let ?st1 = "st\<lparr>opstack := p # (tok Func)\<lparr>text' := text' t\<rparr> # opstack st,
                  fnstack := \<lparr>name = text' t, fn_argc = 0, saw_any_arg = False\<rparr> # fnstack st,
                  expect_operand := True\<rparr>"
  let ?st2 = "st\<lparr>output' := output' st @ [(tok Func)\<lparr>text' := text' t, arity := 0\<rparr>],
                 fnstack := mark_arg (fnstack st),
                 expect_operand := False\<rparr>"
  have s1: "to_rpn_step strtod lx t st = Inr (q, lx1', ?st1)" if "lx1' = lx2" for lx1'
    using t p q that by (simp add: to_rpn_step_def)
  have c: "to_rpn_token q ?st1 = Inr ?st2"
    using q(2) p(2) by (simp add: to_rpn_token_RParen Let_def tok_def)
  have s2: "to_rpn_step strtod lx2 q ?st1 = Inr (u, lx3, ?st2)"
    using q(2) c u by (simp add: to_rpn_step_def)
  have "to_rpn_loop strtod lx t st = to_rpn_loop strtod lx2 q ?st1"
    using t s1 [OF refl] by (simp add: to_rpn_loop.simps [of strtod lx t st])
  also have "\<dots> = to_rpn_loop strtod lx3 u ?st2"
    using q(2) s2 by (simp add: to_rpn_loop.simps [of strtod lx2 q ?st1])
  finally show ?thesis .
qed

lemma has_empty_call_rejected:
  assumes "has_empty_call strtod lx t"
    and "lex_next strtod L = Inr (t, \<lparr>remaining = lx, lookahead = None\<rparr>)"
  shows "\<exists>m. compile_loop strtod L st = Inl (ParseError m)"
  using assms
proof (induction strtod L st arbitrary: lx t rule: compile_loop.induct)
  case (1 strtod L st)
  note he = "1.prems"(1) and ln = "1.prems"(2)
  let ?L1 = "\<lparr>remaining = lx, lookahead = None\<rparr> :: 'a Lexer"
  from he have ne: "kind t \<noteq> End" by (auto simp: has_empty_call.simps [of strtod lx t])
  from he ne obtain p lx1 where p: "Lexer_next strtod lx = Inr (p, lx1)"
    by (auto simp: has_empty_call.simps [of strtod lx t] split: sum.splits)
  have B: "compile_loop strtod L st =
             (case compile_step strtod ?L1 t st of
                Inl e \<Rightarrow> Inl e
              | Inr (L2, st') \<Rightarrow> compile_loop strtod L2 st')"
    using ne ln by (simp add: compile_loop.simps [of strtod L st])
  show ?case
  proof (cases "kind t = Ident \<and> kind p = LParen
                  \<and> (case Lexer_next strtod lx1 of
                        Inl e \<Rightarrow> False | Inr (q, lx2) \<Rightarrow> kind q = RParen)")
    case True
    then obtain q lx2 where "Lexer_next strtod lx1 = Inr (q, lx2)" "kind q = RParen"
      by (auto split: sum.splits)
    with True p ln empty_call_here_ts_expr [of t strtod lx p lx1 q lx2 L st]
    show ?thesis by simp
  next
    case False
    with he ne p have he1: "has_empty_call strtod lx1 p"
      by (auto simp: has_empty_call.simps [of strtod lx t])
    then have pe: "kind p \<noteq> End" by (auto simp: has_empty_call.simps [of strtod lx1 p])
    show ?thesis
    proof (cases "compile_step strtod ?L1 t st")
      case (Inl e)
      with compile_step_error [OF Inl] B show ?thesis by simp
    next
      case (Inr sr)
      obtain L2 st2 where sr: "sr = (L2, st2)" by (cases sr)
      note s = Inr [unfolded sr]
      have B2: "compile_loop strtod L st = compile_loop strtod L2 st2"
        using B s by simp
      show ?thesis
      proof (cases "kind t = Ident")
        case ni: False
        with s have L2: "L2 = ?L1" by (auto simp: compile_step_def split: sum.splits)
        have "lex_next strtod L2 = Inr (p, \<lparr>remaining = lx1, lookahead = None\<rparr>)"
          using p by (simp add: L2 lex_next_def next_impl_eq)
        from "1.IH" [OF ln refl ne s refl he1 this] B2 show ?thesis by simp
      next
        case id: True
        show ?thesis
        proof (cases "kind p = LParen")
          case np: False
          with s id p have L2: "L2 = \<lparr>remaining = lx1, lookahead = Some p\<rparr>"
            by (auto simp: compile_step_def peek_def next_impl_eq)
          have "lex_next strtod L2 = Inr (p, \<lparr>remaining = lx1, lookahead = None\<rparr>)"
            by (simp add: L2 lex_next_def)
          from "1.IH" [OF ln refl ne s refl he1 this] B2 show ?thesis by simp
        next
          case lp: True
          with s id p have L2: "L2 = \<lparr>remaining = lx1, lookahead = None\<rparr>"
            by (auto simp: compile_step_def peek_def lex_next_def next_impl_eq)
          from he1 pe obtain q lx2 where q: "Lexer_next strtod lx1 = Inr (q, lx2)"
            by (auto simp: has_empty_call.simps [of strtod lx1 p] split: sum.splits)
          from he1 pe q lp have he2: "has_empty_call strtod lx2 q"
            by (auto simp: has_empty_call.simps [of strtod lx1 p])
          have "lex_next strtod L2 = Inr (q, \<lparr>remaining = lx2, lookahead = None\<rparr>)"
            using q by (simp add: L2 lex_next_def next_impl_eq)
          from "1.IH" [OF ln refl ne s refl he2 this] B2 show ?thesis by simp
        qed
      qed
    qed
  qed
qed

lemma contains_empty_call_rejected:
  assumes "contains_empty_call strtod input"
  shows "\<exists>m. ts_expr_compile strtod input = Inl (ParseError m)"
proof -
  from assms obtain lhs lx1 where 1: "Lexer_next strtod input = Inr (lhs, lx1)"
    by (cases "Lexer_next strtod input") (auto simp: contains_empty_call_def)
  from assms 1 obtain eq lx2 where 2: "Lexer_next strtod lx1 = Inr (eq, lx2)"
    by (cases "Lexer_next strtod lx1") (auto simp: contains_empty_call_def)
  from assms 1 2 obtain first lx3 where 3: "Lexer_next strtod lx2 = Inr (first, lx3)"
    by (cases "Lexer_next strtod lx2") (auto simp: contains_empty_call_def)
  from assms 1 2 3 have he: "has_empty_call strtod lx3 first"
    by (simp add: contains_empty_call_def)
  let ?L2 = "\<lparr>remaining = lx2, lookahead = None\<rparr> :: 'a Lexer"
  have b3: "lex_next strtod ?L2 = Inr (first, \<lparr>remaining = lx3, lookahead = None\<rparr>)"
    using 3 by (simp add: lex_next_def next_impl_eq)
  from has_empty_call_rejected [OF he b3, of shunt_init]
  obtain m where "compile_loop strtod ?L2 shunt_init = Inl (ParseError m)" ..
  with 1 2 show ?thesis
    by (simp add: ts_expr_compile_def lex_next_def Lexer_def next_impl_eq)
qed

text \<open>
  Claim C2, as stated, fails: \<open>tsexpr::compile\<close> accepts \<open>z = f()\<close> and returns a program
  whose call instruction has arity 0.
\<close>

theorem empty_call_compiles_in_tsexpr:
  "tsexpr_compile strtod_digits ''z = f()''
     = Inr \<lparr>code = [\<lparr>op = Call, itext = ''f'', inumber = 0, argc = 0\<rparr>,
                    \<lparr>op = Store, itext = ''z'', inumber = 0, argc = 0\<rparr>]\<rparr>"
  by (simp add: lexer_eval tsexpr_eval)

text \<open>
  Claim C2, amended. \<open>ts::expr::compile\<close> fails with a parse error on every input whose
  expression contains an identifier directly followed by an open and a close parenthesis,
  wherever that call stands and whatever its name, and no postfix sequence it returns contains
  a function token of arity below 1. In every state of its loop, an identifier followed by
  \<open>(\<close> and \<open>)\<close> raises the parse error of the empty argument list; in every state of the loop of
  \<open>tsexpr::compile\<close>, the same three tokens append a function token of arity 0 to the output
  and the loop goes on. For every plain identifier \<open>f\<close> (the characters \<open>c # cs\<close>), the input
  \<open>z = f()\<close> is rejected by \<open>ts::expr::compile\<close> with the parse error of the empty argument list
  and compiled by \<open>tsexpr::compile\<close> to \<open>Call f\<close> with arity 0 followed by \<open>Store z\<close>.
\<close>

theorem empty_call_rule:
  fixes strtod :: "('d::zero) strtod"
  shows
  "(contains_empty_call strtod input \<longrightarrow>
      (\<exists>m. ts_expr_compile strtod input = Inl (ParseError m)))
   \<and> (\<forall>r. ts_expr_compile strtod input = Inr r \<longrightarrow>
          (\<forall>t\<in>set (rpn r). kind t = Func \<longrightarrow> 1 \<le> arity t))
   \<and> (kind t = Ident
        \<and> Lexer_next strtod lx = Inr (p, lx1) \<and> kind p = LParen
        \<and> Lexer_next strtod lx1 = Inr (q, lx2) \<and> kind q = RParen \<longrightarrow>
        (lex_next strtod L = Inr (t, \<lparr>remaining = lx, lookahead = None\<rparr>) \<longrightarrow>
           compile_loop strtod L sb
             = Inl (ParseError ''Function call has empty argument list''))
        \<and> (\<forall>u lx3. Lexer_next strtod lx2 = Inr (u, lx3) \<longrightarrow>
              to_rpn_loop strtod lx t sa =
                to_rpn_loop strtod lx3 u
                  (sa\<lparr>output' := output' sa @ [(tok Func)\<lparr>text' := text' t, arity := 0\<rparr>],
                      fnstack := mark_arg (fnstack sa),
                      expect_operand := False\<rparr>)))
   \<and> (is_ident_start c \<and> (\<forall>x\<in>set cs. is_ident_char x) \<longrightarrow>
        ts_expr_compile strtod (''z = '' @ (c # cs) @ ''()'')
          = Inl (ParseError ''Function call has empty argument list'')
        \<and> tsexpr_compile strtod (''z = '' @ (c # cs) @ ''()'')
          = Inr \<lparr>code = [(instr Call)\<lparr>itext := c # cs, argc := 0\<rparr>,
                         (instr Store)\<lparr>itext := ''z''\<rparr>]\<rparr>)"
proof (intro conjI impI allI)
  assume "contains_empty_call strtod input"
  then show "\<exists>m. ts_expr_compile strtod input = Inl (ParseError m)"
    by (rule contains_empty_call_rejected)
next
  fix r
  assume "ts_expr_compile strtod input = Inr r"
  then show "\<forall>t\<in>set (rpn r). kind t = Func \<longrightarrow> 1 \<le> arity t"
    by (rule ts_expr_compile_arity)
next
  assume h: "kind t = Ident
        \<and> Lexer_next strtod lx = Inr (p, lx1) \<and> kind p = LParen
        \<and> Lexer_next strtod lx1 = Inr (q, lx2) \<and> kind q = RParen"
    and L: "lex_next strtod L = Inr (t, \<lparr>remaining = lx, lookahead = None\<rparr>)"
  from h L show "compile_loop strtod L sb
             = Inl (ParseError ''Function call has empty argument list'')"
    using empty_call_here_ts_expr [of t strtod lx p lx1 q lx2 L sb] by blast
next
  fix u lx3
  assume h: "kind t = Ident
        \<and> Lexer_next strtod lx = Inr (p, lx1) \<and> kind p = LParen
        \<and> Lexer_next strtod lx1 = Inr (q, lx2) \<and> kind q = RParen"
    and u: "Lexer_next strtod lx2 = Inr (u, lx3)"
  from h u show "to_rpn_loop strtod lx t sa =
                to_rpn_loop strtod lx3 u
                  (sa\<lparr>output' := output' sa @ [(tok Func)\<lparr>text' := text' t, arity := 0\<rparr>],
                      fnstack := mark_arg (fnstack sa),
                      expect_operand := False\<rparr>)"
    using empty_call_here_tsexpr [of t strtod lx p lx1 q lx2 u lx3 sa] by blast
next
  assume "is_ident_start c \<and> (\<forall>x\<in>set cs. is_ident_char x)"
  then show "ts_expr_compile strtod (''z = '' @ (c # cs) @ ''()'')
          = Inl (ParseError ''Function call has empty argument list'')"
    using empty_call_ts_expr [of c cs strtod] by blast
next
  assume "is_ident_start c \<and> (\<forall>x\<in>set cs. is_ident_char x)"
  then show "tsexpr_compile strtod (''z = '' @ (c # cs) @ ''()'')
          = Inr \<lparr>code = [(instr Call)\<lparr>itext := c # cs, argc := 0\<rparr>,
                         (instr Store)\<lparr>itext := ''z''\<rparr>]\<rparr>"
    using empty_call_tsexpr [of c cs strtod] by (simp add: instr_def)
qed

text \<open>
  The input \<open>z = 1 + g()\<close>, where the empty call is not at the start of the expression: it is
  rejected by \<open>ts::expr::compile\<close> and compiled by \<open>tsexpr::compile\<close> with a call of arity 0;
  \<open>s = sumproduct(a, b)\<close> compiles in \<open>ts::expr\<close> to a function token of arity 2.
\<close>

theorem empty_call_rule_witness:
  "contains_empty_call strtod_digits ''z = 1 + g()''
   \<and> ts_expr_compile strtod_digits ''z = 1 + g()''
       = Inl (ParseError ''Function call has empty argument list'')
   \<and> ts_expr_compile strtod_digits ''s = sumproduct(a, b)''
       = Inr \<lparr>target = ''s'',
              rpn = [(tok Ident)\<lparr>text' := ''a''\<rparr>, (tok Ident)\<lparr>text' := ''b''\<rparr>,
                     (tok Func)\<lparr>text' := ''sumproduct'', arity := 2\<rparr>]\<rparr>
   \<and> 1 \<le> arity ((tok Func)\<lparr>text' := ''sumproduct'', arity := 2\<rparr> :: real Token)
   \<and> kind ((tok Ident)\<lparr>text' := ''g''\<rparr> :: real Token) = Ident
   \<and> Lexer_next strtod_digits ''()'' = Inr (tok LParen, '')'')
   \<and> Lexer_next strtod_digits '')'' = Inr (tok RParen, [])
   \<and> Lexer_next strtod_digits [] = Inr (tok End, [])
   \<and> lex_next strtod_digits (Lexer ''g()'')
       = Inr ((tok Ident)\<lparr>text' := ''g''\<rparr>, \<lparr>remaining = ''()'', lookahead = None\<rparr>)
   \<and> compile_loop strtod_digits (Lexer ''g()'')
        (shunt_init\<lparr>output' := [(tok Number)\<lparr>number := 1\<rparr>], opstack := [tok Plus]\<rparr>)
       = Inl (ParseError ''Function call has empty argument list'')
   \<and> to_rpn_loop strtod_digits ''()'' ((tok Ident)\<lparr>text' := ''g''\<rparr>)
        (shunt_init\<lparr>output' := [(tok Number)\<lparr>number := 1\<rparr>], opstack := [tok Plus]\<rparr>)
       = Inr (shunt_init\<lparr>output' := [(tok Number)\<lparr>number := 1\<rparr>,
                                     (tok Func)\<lparr>text' := ''g'', arity := 0\<rparr>],
                         opstack := [tok Plus], expect_operand := False\<rparr>)
   \<and> is_ident_start CHR ''g''
   \<and> ts_expr_compile strtod_digits ''z = g()''
       = Inl (ParseError ''Function call has empty argument list'')
   \<and> tsexpr_compile strtod_digits ''z = g()''
       = Inr \<lparr>code = [(instr Call)\<lparr>itext := ''g'', argc := 0\<rparr>,
                      (instr Store)\<lparr>itext := ''z''\<rparr>]\<rparr>
   \<and> tsexpr_compile strtod_digits ''z = 1 + g()''
       = Inr \<lparr>code = [(instr PushNum)\<lparr>inumber := 1\<rparr>,
                      (instr Call)\<lparr>itext := ''g'', argc := 0\<rparr>,
                      instr Add, (instr Store)\<lparr>itext := ''z''\<rparr>]\<rparr>"
  using empty_call_rule
          [of strtod_digits "''z = 1 + g()''" "(tok Ident)\<lparr>text' := ''g''\<rparr>" "''()''"
              "tok LParen" "'')''" "tok RParen" "[]" "Lexer ''g()''"
              "shunt_init\<lparr>output' := [(tok Number)\<lparr>number := 1\<rparr>], opstack := [tok Plus]\<rparr>"
              "shunt_init\<lparr>output' := [(tok Number)\<lparr>number := 1\<rparr>], opstack := [tok Plus]\<rparr>"
              "CHR ''g''" "[]"]
        empty_call_rule
          [of strtod_digits "''s = sumproduct(a, b)''" "(tok Ident)\<lparr>text' := ''g''\<rparr>" "''()''"
              "tok LParen" "'')''" "tok RParen" "[]" "Lexer ''g()''"
              "shunt_init\<lparr>output' := [(tok Number)\<lparr>number := 1\<rparr>], opstack := [tok Plus]\<rparr>"
              "shunt_init\<lparr>output' := [(tok Number)\<lparr>number := 1\<rparr>], opstack := [tok Plus]\<rparr>"
              "CHR ''g''" "[]"]
  by (simp add: contains_empty_call_def has_empty_call.simps lexer_eval ts_expr_eval tsexpr_eval)

section \<open>Commas and call arity\<close>

text \<open>
  Claim C3, as stated, fails in \<open>tsexpr::compile\<close>: the comma inside the nested parentheses of
  \<open>z = f((1,2))\<close> is accepted and counted, giving a call of arity 2, and the call \<open>g()\<close> gets
  arity 0, which is not one plus its number of commas.
\<close>

theorem comma_and_arity_in_tsexpr:
  "tsexpr_compile strtod_digits ''z = f((1,2))''
     = Inr \<lparr>code = [\<lparr>op = PushNum, itext = [], inumber = 1, argc = 0\<rparr>,
                    \<lparr>op = PushNum, itext = [], inumber = 2, argc = 0\<rparr>,
                    \<lparr>op = Call, itext = ''f'', inumber = 0, argc = 2\<rparr>,
                    \<lparr>op = Store, itext = ''z'', inumber = 0, argc = 0\<rparr>]\<rparr>
   \<and> tsexpr_compile strtod_digits ''z = g()''
     = Inr \<lparr>code = [\<lparr>op = Call, itext = ''g'', inumber = 0, argc = 0\<rparr>,
                    \<lparr>op = Store, itext = ''z'', inumber = 0, argc = 0\<rparr>]\<rparr>"
  by (simp add: lexer_eval tsexpr_eval)

lemma comma_rule_accept:
  "compile_reach strtod input L st \<and> kind t = Comma \<longrightarrow>
      ((\<exists>st'. compile_token t st = Inr st')
          = (fnstack st \<noteq> [] \<and> parens_above_call (opstack st) = 1))
      \<and> ((\<exists>m. compile_token t st = Inl (ParseError m))
          = (\<not> (fnstack st \<noteq> [] \<and> parens_above_call (opstack st) = 1)))
      \<and> (\<forall>st'. compile_token t st = Inr st' \<longrightarrow>
            map commas (fnstack st')
              = (commas (hd (fnstack st)) + 1) # map commas (tl (fnstack st)))"
proof (intro impI, elim conjE)
  assume r: "compile_reach strtod input L st" and k: "kind t = Comma"
  note inv = compile_reach_inv [OF r]
  note a = comma_accepted_iff [OF inv k]
  from a comma_rejected_iff [OF k, of st] comma_counts [OF k, of st]
  show "((\<exists>st'. compile_token t st = Inr st')
          = (fnstack st \<noteq> [] \<and> parens_above_call (opstack st) = 1))
      \<and> ((\<exists>m. compile_token t st = Inl (ParseError m))
          = (\<not> (fnstack st \<noteq> [] \<and> parens_above_call (opstack st) = 1)))
      \<and> (\<forall>st'. compile_token t st = Inr st' \<longrightarrow>
            map commas (fnstack st')
              = (commas (hd (fnstack st)) + 1) # map commas (tl (fnstack st)))"
    by simp
qed

lemma comma_rule_others:
  "kind t \<noteq> Comma \<longrightarrow>
      (\<forall>st'. compile_token t st = Inr st' \<longrightarrow>
         map commas (fnstack st') = map commas (fnstack st)
         \<or> map commas (fnstack st') = tl (map commas (fnstack st)))"
  using other_tokens_keep_counts by blast

lemma comma_rule_identifier:
  "kind t = Ident \<longrightarrow>
      (\<forall>L2 st'. compile_step strtod L t st = Inr (L2, st') \<longrightarrow>
         map commas (fnstack st') = map commas (fnstack st)
         \<or> map commas (fnstack st') = 0 # map commas (fnstack st))"
  using identifier_keeps_counts by blast

lemma comma_rule_close:
  "kind t = RParen \<longrightarrow>
      (\<forall>st'. compile_token t st = Inr st' \<and> length (fnstack st') < length (fnstack st) \<longrightarrow>
         kind (last (output' st')) = Func
         \<and> arity (last (output' st')) = commas (hd (fnstack st)) + 1)"
  using call_close_arity by blast

lemma comma_rule_tsexpr_reject:
  "kind t = Comma \<and> ((\<forall>x\<in>set (opstack sa). kind x \<noteq> LParen) \<or> fnstack sa = []) \<longrightarrow>
      (\<exists>m. to_rpn_token t sa = Inl (ParseError m))"
  using to_rpn_comma_rejected by blast

lemma comma_rule_tsexpr_close:
  "kind t = RParen \<longrightarrow>
      (\<forall>sa'. to_rpn_token t sa = Inr sa' \<and> length (fnstack sa') < length (fnstack sa) \<longrightarrow>
         kind (last (output' sa')) = Func
         \<and> arity (last (output' sa'))
             = (if saw_any_arg (hd (fnstack sa)) then fn_argc (hd (fnstack sa)) + 1 else 0))"
  using to_rpn_close_arity by blast

lemma comma_rule_tsexpr_counts:
  "kind t = Comma \<longrightarrow>
      (\<forall>sa'. to_rpn_token t sa = Inr sa' \<longrightarrow>
         map fn_argc (fnstack sa')
           = (fn_argc (hd (fnstack sa)) + 1) # map fn_argc (tl (fnstack sa)))"
  using to_rpn_comma_counts by blast

text \<open>
  Claim C3, amended. In \<open>ts::expr::compile\<close>, at every state the loop reaches on any input, a
  comma is accepted exactly when a call is active and exactly one open parenthesis lies above
  its marker on the operator stack (depth 1 of that call); otherwise it fails with a parse
  error. An accepted comma adds one to the comma count of the innermost call and to no other,
  no other token changes the count of a call that stays active, a call starts with count 0,
  and the function token emitted when a call closes has arity one plus that count. In
  \<open>tsexpr\<close>'s \<open>to_rpn\<close>, a comma fails with a parse error when no open parenthesis is on the
  operator stack or no call is active, an accepted comma adds one to the count of the innermost
  call, and the call emitted at its close has arity one plus that count if an argument was
  seen and 0 otherwise.
\<close>

theorem comma_rule:
  "(compile_reach strtod input L st \<and> kind t = Comma \<longrightarrow>
      ((\<exists>st'. compile_token t st = Inr st')
          = (fnstack st \<noteq> [] \<and> parens_above_call (opstack st) = 1))
      \<and> ((\<exists>m. compile_token t st = Inl (ParseError m))
          = (\<not> (fnstack st \<noteq> [] \<and> parens_above_call (opstack st) = 1)))
      \<and> (\<forall>st'. compile_token t st = Inr st' \<longrightarrow>
            map commas (fnstack st')
              = (commas (hd (fnstack st)) + 1) # map commas (tl (fnstack st))))
   \<and> (kind t \<noteq> Comma \<longrightarrow>
      (\<forall>st'. compile_token t st = Inr st' \<longrightarrow>
         map commas (fnstack st') = map commas (fnstack st)
         \<or> map commas (fnstack st') = tl (map commas (fnstack st))))
   \<and> (kind t = Ident \<longrightarrow>
      (\<forall>L2 st'. compile_step strtod L t st = Inr (L2, st') \<longrightarrow>
         map commas (fnstack st') = map commas (fnstack st)
         \<or> map commas (fnstack st') = 0 # map commas (fnstack st)))
   \<and> (kind t = RParen \<longrightarrow>
      (\<forall>st'. compile_token t st = Inr st' \<and> length (fnstack st') < length (fnstack st) \<longrightarrow>
         kind (last (output' st')) = Func
         \<and> arity (last (output' st')) = commas (hd (fnstack st)) + 1))
   \<and> (kind t = Comma \<and> ((\<forall>x\<in>set (opstack sa). kind x \<noteq> LParen) \<or> fnstack sa = []) \<longrightarrow>
      (\<exists>m. to_rpn_token t sa = Inl (ParseError m)))
   \<and> (kind t = Comma \<longrightarrow>
      (\<forall>sa'. to_rpn_token t sa = Inr sa' \<longrightarrow>
         map fn_argc (fnstack sa')
           = (fn_argc (hd (fnstack sa)) + 1) # map fn_argc (tl (fnstack sa))))
   \<and> (kind t = RParen \<longrightarrow>
      (\<forall>sa'. to_rpn_token t sa = Inr sa' \<and> length (fnstack sa') < length (fnstack sa) \<longrightarrow>
         kind (last (output' sa')) = Func
         \<and> arity (last (output' sa'))
             = (if saw_any_arg (hd (fnstack sa)) then fn_argc (hd (fnstack sa)) + 1 else 0)))"
  apply (intro conjI)
        apply (rule comma_rule_accept)
       apply (rule comma_rule_others)
      apply (rule comma_rule_identifier)
     apply (rule comma_rule_close)
    apply (rule comma_rule_tsexpr_reject)
   apply (rule comma_rule_tsexpr_counts)
  apply (rule comma_rule_tsexpr_close)
  done


text \<open>
  On the input \<open>z = f(1,2)\<close>: the state reached after \<open>f(1\<close> accepts the comma and counts it;
  the later closing parenthesis emits \<open>f\<close> with arity 2. At the start of an expression a comma
  is rejected by \<open>to_rpn\<close>.
\<close>

theorem comma_rule_witness:
  "compile_reach strtod_digits ''z = f(1,2)'' \<lparr>remaining = '',2)'', lookahead = None\<rparr>
      \<lparr>output' = [(tok Number)\<lparr>number := 1\<rparr>],
       opstack = [tok LParen, (tok Func)\<lparr>text' := ''f''\<rparr>],
       fnstack = [\<lparr>commas = 0, depth = 1, saw_expr = True\<rparr>],
       expect_operand = False\<rparr>
   \<and> kind (tok Comma :: real Token) = Comma
   \<and> compile_token (tok Comma)
        \<lparr>output' = [(tok Number)\<lparr>number := 1\<rparr>],
         opstack = [tok LParen, (tok Func)\<lparr>text' := ''f''\<rparr>],
         fnstack = [\<lparr>commas = 0, depth = 1, saw_expr = True\<rparr>],
         expect_operand = False\<rparr>
       = Inr \<lparr>output' = [(tok Number)\<lparr>number := 1 :: real\<rparr>],
              opstack = [tok LParen, (tok Func)\<lparr>text' := ''f''\<rparr>],
              fnstack = [\<lparr>commas = 1, depth = 1, saw_expr = True\<rparr>],
              expect_operand = True\<rparr>
   \<and> kind (tok RParen :: real Token) = RParen
   \<and> compile_token (tok RParen)
        \<lparr>output' = [(tok Number)\<lparr>number := 1\<rparr>, (tok Number)\<lparr>number := 2\<rparr>],
         opstack = [tok LParen, (tok Func)\<lparr>text' := ''f''\<rparr>],
         fnstack = [\<lparr>commas = 1, depth = 1, saw_expr = True\<rparr>],
         expect_operand = False\<rparr>
       = Inr \<lparr>output' = [(tok Number)\<lparr>number := 1 :: real\<rparr>, (tok Number)\<lparr>number := 2\<rparr>,
                         (tok Func)\<lparr>text' := ''f'', arity := 2\<rparr>],
              opstack = [], fnstack = [], expect_operand = False\<rparr>
   \<and> to_rpn_token (tok Comma :: real Token) shunt_init
       = Inl (ParseError ''Comma not within function call'')
   \<and> to_rpn_token (tok RParen)
        \<lparr>output' = [(tok Number)\<lparr>number := 1\<rparr>, (tok Number)\<lparr>number := 2\<rparr>],
         opstack = [tok LParen, (tok Func)\<lparr>text' := ''f''\<rparr>],
         fnstack = [\<lparr>name = ''f'', fn_argc = 1, saw_any_arg = True\<rparr>],
         expect_operand = False\<rparr>
       = Inr \<lparr>output' = [(tok Number)\<lparr>number := 1 :: real\<rparr>, (tok Number)\<lparr>number := 2\<rparr>,
                         (tok Func)\<lparr>text' := ''f'', arity := 2\<rparr>],
              opstack = [], fnstack = [], expect_operand = False\<rparr>"
proof -
  let ?s1 = "\<lparr>output' = [], opstack = [tok LParen, (tok Func)\<lparr>text' := ''f''\<rparr>],
              fnstack = [\<lparr>commas = 0, depth = 1, saw_expr = False\<rparr>],
              expect_operand = True\<rparr> :: (real, FuncCtx) shunt"
  let ?s2 = "\<lparr>output' = [(tok Number)\<lparr>number := 1\<rparr>],
              opstack = [tok LParen, (tok Func)\<lparr>text' := ''f''\<rparr>],
              fnstack = [\<lparr>commas = 0, depth = 1, saw_expr = True\<rparr>],
              expect_operand = False\<rparr> :: (real, FuncCtx) shunt"
  let ?s3 = "\<lparr>output' = [(tok Number)\<lparr>number := 1\<rparr>, (tok Number)\<lparr>number := 2\<rparr>],
              opstack = [tok LParen, (tok Func)\<lparr>text' := ''f''\<rparr>],
              fnstack = [\<lparr>commas = 1, depth = 1, saw_expr = True\<rparr>],
              expect_operand = False\<rparr> :: (real, FuncCtx) shunt"
  let ?a3 = "\<lparr>output' = [(tok Number)\<lparr>number := 1\<rparr>, (tok Number)\<lparr>number := 2\<rparr>],
              opstack = [tok LParen, (tok Func)\<lparr>text' := ''f''\<rparr>],
              fnstack = [\<lparr>name = ''f'', fn_argc = 1, saw_any_arg = True\<rparr>],
              expect_operand = False\<rparr> :: (real, FnFrame) shunt"
  have 1: "lex_next strtod_digits (Lexer ''z = f(1,2)'')
             = Inr ((tok Ident)\<lparr>text' := ''z''\<rparr>, \<lparr>remaining = '' = f(1,2)'', lookahead = None\<rparr>)"
    by (simp add: lexer_eval)
  have 2: "kind ((tok Ident)\<lparr>text' := ''z''\<rparr> :: real Token) = Ident"
    by (simp add: tok_def)
  have 3: "lex_next strtod_digits \<lparr>remaining = '' = f(1,2)'', lookahead = None\<rparr>
             = Inr (tok Assign, \<lparr>remaining = '' f(1,2)'', lookahead = None\<rparr>)"
    by (simp add: lexer_eval)
  have 4: "kind (tok Assign :: real Token) = Assign"
    by (simp add: tok_def)
  note r0 = compile_reach.start [OF 1 2 3 4]
  have 5: "lex_next strtod_digits \<lparr>remaining = '' f(1,2)'', lookahead = None\<rparr>
             = Inr ((tok Ident)\<lparr>text' := ''f''\<rparr>, \<lparr>remaining = ''(1,2)'', lookahead = None\<rparr>)"
    by (simp add: lexer_eval)
  have 6: "kind ((tok Ident)\<lparr>text' := ''f''\<rparr> :: real Token) \<noteq> End"
    by (simp add: tok_def)
  have 7: "compile_step strtod_digits \<lparr>remaining = ''(1,2)'', lookahead = None\<rparr>
             ((tok Ident)\<lparr>text' := ''f''\<rparr>) shunt_init
             = Inr (\<lparr>remaining = ''1,2)'', lookahead = None\<rparr>, ?s1)"
    by (simp add: compile_step_def shunt_init_def lexer_eval)
  note r1 = compile_reach.iterate [OF r0 5 6 7]
  have 8: "lex_next strtod_digits \<lparr>remaining = ''1,2)'', lookahead = None\<rparr>
             = Inr ((tok Number)\<lparr>number := 1\<rparr>, \<lparr>remaining = '',2)'', lookahead = None\<rparr>)"
    by (simp add: lexer_eval)
  have 9: "kind ((tok Number)\<lparr>number := 1\<rparr> :: real Token) \<noteq> End"
    by (simp add: tok_def)
  have 10: "compile_step strtod_digits \<lparr>remaining = '',2)'', lookahead = None\<rparr>
             ((tok Number)\<lparr>number := 1\<rparr>) ?s1
             = Inr (\<lparr>remaining = '',2)'', lookahead = None\<rparr>, ?s2)"
    by (simp add: compile_step_def compile_token_def mark_expr_def tok_def)
  note r2 = compile_reach.iterate [OF r1 8 9 10]
  have kc: "kind (tok Comma :: real Token) = Comma" and kr: "kind (tok RParen :: real Token) = RParen"
    by (simp_all add: tok_def)
  from r2 kc kr
    comma_rule [of strtod_digits "''z = f(1,2)''" "\<lparr>remaining = '',2)'', lookahead = None\<rparr>"
                   ?s2 "tok Comma" shunt_init]
    comma_rule [of strtod_digits "''z = f(1,2)''" "\<lparr>remaining = '',2)'', lookahead = None\<rparr>"
                   ?s3 "tok RParen" ?a3]
  show ?thesis
    by (simp add: compile_token_def to_rpn_token_def shunt_init_def tok_def is_function_def
          mark_arg_def)
qed

section \<open>Failure leaves the variable store untouched\<close>

lemma exec_instr_keeps_backend:
  assumes "op ins \<noteq> Store" and "exec_instr be ins b st = Inr (b', st')"
  shows "b' = b"
  using assms
  by (cases "op ins")
     (auto simp: exec_instr_def push_result_def split: sum.splits if_splits)

lemma exec_loop_keeps_backend:
  assumes "\<forall>i\<in>set c. op i \<noteq> Store"
  shows "(exec_loop be c b st = Inr (b', st') \<longrightarrow> b' = b)
         \<and> (exec_loop be c b st = Inl (e, b') \<longrightarrow> b' = b)"
  using assms
proof (induction c arbitrary: st)
  case Nil
  then show ?case by simp
next
  case (Cons i c)
  show ?case
  proof (cases "exec_instr be i b st")
    case (Inl x)
    then show ?thesis by simp
  next
    case (Inr y)
    obtain b1 st1 where y: "y = (b1, st1)" by (cases y)
    from Cons.prems have "op i \<noteq> Store" by simp
    from exec_instr_keeps_backend [OF this] Inr y have "b1 = b" by simp
    with Cons Inr y show ?thesis by simp
  qed
qed

lemma exec_loop_append_fail:
  "exec_loop be pre b st = Inl x \<Longrightarrow> exec_loop be (pre @ post) b st = Inl x"
  by (induction pre arbitrary: b st) (auto split: sum.splits)

lemma exec_loop_store_last:
  assumes ns: "\<forall>i\<in>set c. op i \<noteq> Store" and s: "op s = Store"
    and f: "exec_loop be (c @ [s]) b [] = Inl (e, b')"
  shows "b' = b \<and> ((\<exists>e'. exec_loop be c b [] = Inl (e', b)) \<or> exec_loop be c b [] = Inr (b, []))"
proof (cases "exec_loop be c b []")
  case (Inl x)
  obtain e1 b1 where x: "x = (e1, b1)" by (cases x)
  from exec_loop_keeps_backend [OF ns, of be b "[]" b1 undefined e1] Inl x have "b1 = b" by simp
  with exec_loop_append_fail [OF Inl, of "[s]"] f Inl x show ?thesis by simp
next
  case (Inr y)
  obtain b1 st1 where y: "y = (b1, st1)" by (cases y)
  from exec_loop_keeps_backend [OF ns, of be b "[]" b1 st1] Inr y have b1: "b1 = b" by simp
  from exec_loop_append [of be c b "[]" b1 st1 "[s]"] Inr y f b1
  have "exec_loop be [s] b st1 = Inl (e, b')" by simp
  with s have "b' = b \<and> st1 = []"
    by (cases st1) (auto simp: exec_instr_def split: sum.splits)
  with Inr y b1 show ?thesis by simp
qed

lemma lower_not_store: "lower t = Inr i \<Longrightarrow> op i \<noteq> Store"
  by (auto simp: lower_def instr_def split: if_splits)

lemma lower_all_not_store:
  "lower_all ts acc = Inr c \<Longrightarrow> \<forall>i\<in>set acc. op i \<noteq> Store \<Longrightarrow> \<forall>i\<in>set c. op i \<noteq> Store"
proof (induction ts arbitrary: acc)
  case Nil
  then show ?case by simp
next
  case (Cons t ts)
  from Cons.prems(1) obtain i where i: "lower t = Inr i" and r: "lower_all ts (acc @ [i]) = Inr c"
    by (auto split: sum.splits)
  from lower_not_store [OF i] Cons.prems(2) have "\<forall>j\<in>set (acc @ [i]). op j \<noteq> Store" by simp
  from Cons.IH [OF r this] show ?case .
qed

lemma tsexpr_compile_shape:
  assumes "tsexpr_compile strtod input = Inr p"
  shows "\<exists>c s. code p = c @ [s] \<and> op s = Store \<and> (\<forall>i\<in>set c. op i \<noteq> Store)"
proof -
  from assms obtain lhs lx1 where 1: "Lexer_next strtod input = Inr (lhs, lx1)"
    by (auto simp: tsexpr_compile_def split: sum.splits)
  with assms have 2: "kind lhs = Ident"
    by (auto simp: tsexpr_compile_def split: if_splits)
  with assms 1 obtain eq lx2 where 3: "Lexer_next strtod lx1 = Inr (eq, lx2)"
    by (auto simp: tsexpr_compile_def split: sum.splits)
  with assms 1 2 have 4: "kind eq = Assign"
    by (auto simp: tsexpr_compile_def split: if_splits)
  with assms 1 2 3 obtain first lx3 where 5: "Lexer_next strtod lx2 = Inr (first, lx3)"
    by (auto simp: tsexpr_compile_def split: sum.splits)
  with assms 1 2 3 4 have 6: "kind first \<noteq> End"
    by (auto simp: tsexpr_compile_def split: if_splits)
  with assms 1 2 3 4 5 obtain r where 7: "to_rpn strtod lx3 first = Inr r"
    by (auto simp: tsexpr_compile_def split: sum.splits)
  with assms 1 2 3 4 5 6 obtain c where 8: "lower_all r [] = Inr c"
    and 9: "code p = c @ [(instr Store)\<lparr>itext := text' lhs\<rparr>]"
    by (auto simp: tsexpr_compile_def split: sum.splits)
  from lower_all_not_store [OF 8] have "\<forall>i\<in>set c. op i \<noteq> Store" by simp
  with 9 show ?thesis by (auto simp: instr_def)
qed

lemma tsexpr_failure_atomic:
  assumes "compile_and_execute be strtod input b = (Some e, b')"
  shows "b' = b"
proof (cases "tsexpr_compile strtod input")
  case (Inl x)
  with assms show ?thesis by (simp add: compile_and_execute_def)
next
  case (Inr p)
  from tsexpr_compile_shape [OF Inr] obtain c s where
    c: "code p = c @ [s]" "op s = Store" "\<forall>i\<in>set c. op i \<noteq> Store" by blast
  from assms Inr c(1) have "exec_loop be (c @ [s]) b [] = Inl (e, b')"
    by (auto simp: compile_and_execute_def execute_def split: sum.splits)
  from exec_loop_store_last [OF c(3) c(2) this] show ?thesis by simp
qed

lemma tsexpr_store_not_reached:
  assumes p: "tsexpr_compile strtod input = Inr p" and f: "execute be p b = (Some e, b')"
  shows "(\<exists>e'. exec_loop be (butlast (code p)) b [] = Inl (e', b))
         \<or> exec_loop be (butlast (code p)) b [] = Inr (b, [])"
proof -
  from tsexpr_compile_shape [OF p] obtain c s where
    c: "code p = c @ [s]" "op s = Store" "\<forall>i\<in>set c. op i \<noteq> Store" by blast
  from f c(1) have "exec_loop be (c @ [s]) b [] = Inl (e, b')"
    by (auto simp: execute_def split: sum.splits)
  from exec_loop_store_last [OF c(3) c(2) this] c(1) show ?thesis by simp
qed

lemma ts_expr_failure_atomic:
  assumes "execute_assignment strtod input env = (Some e, env')"
  shows "env' = env"
  using assms
  by (auto simp: execute_assignment_def split: sum.splits Value.splits)

text \<open>
  Claim C8. Whenever compiling and executing an input in namespace \<open>tsexpr\<close> ends in an
  error, the backend state is the one before the call, for every backend: a program returned by
  \<open>tsexpr::compile\<close> has exactly one store instruction, the last one, and a failing run of it
  has failed among the instructions before the store or at the store's pop from an empty
  stack, before \<open>store_var\<close>; when compilation fails nothing is executed. Whenever
  \<open>execute_assignment\<close> ends in an error, the environment is the one before the call.
\<close>

theorem failure_leaves_store_untouched:
  "(\<forall>e b'. compile_and_execute be strtod input b = (Some e, b') \<longrightarrow> b' = b)
   \<and> (\<forall>p. tsexpr_compile strtod input = Inr p \<longrightarrow>
         (\<exists>c s. code p = c @ [s] \<and> op s = Store \<and> (\<forall>i\<in>set c. op i \<noteq> Store))
         \<and> (\<forall>e b'. execute be p b = (Some e, b') \<longrightarrow>
               (\<exists>e'. exec_loop be (butlast (code p)) b [] = Inl (e', b))
               \<or> exec_loop be (butlast (code p)) b [] = Inr (b, [])))
   \<and> (\<forall>e. tsexpr_compile strtod input = Inl e \<longrightarrow>
         compile_and_execute be strtod input b = (Some e, b))
   \<and> (\<forall>e env'. execute_assignment strtod input env = (Some e, env') \<longrightarrow> env' = env)"
proof (intro conjI allI impI)
  fix e b'
  assume "compile_and_execute be strtod input b = (Some e, b')"
  then show "b' = b" by (rule tsexpr_failure_atomic)
next
  fix p
  assume "tsexpr_compile strtod input = Inr p"
  then show "\<exists>c s. code p = c @ [s] \<and> op s = Store \<and> (\<forall>i\<in>set c. op i \<noteq> Store)"
    by (rule tsexpr_compile_shape)
next
  fix p e b'
  assume "tsexpr_compile strtod input = Inr p" and "execute be p b = (Some e, b')"
  then show "(\<exists>e'. exec_loop be (butlast (code p)) b [] = Inl (e', b))
               \<or> exec_loop be (butlast (code p)) b [] = Inr (b, [])"
    by (rule tsexpr_store_not_reached)
next
  fix e
  assume "tsexpr_compile strtod input = Inl e"
  then show "compile_and_execute be strtod input b = (Some e, b)"
    by (simp add: compile_and_execute_def)
next
  fix e env'
  assume "execute_assignment strtod input env = (Some e, env')"
  then show "env' = env" by (rule ts_expr_failure_atomic)
qed

text \<open>
  The unknown variable of \<open>z = a + missing\<close> makes both executions fail, and the mismatched
  parenthesis of \<open>z = (a + 2\<close> makes both compilations fail; the stores are unchanged.
\<close>

theorem failure_leaves_store_untouched_witness:
  "compile_and_execute toy strtod_digits ''z = a + missing'' [''a'' \<mapsto> Series [1, 2, 3]]
     = (Some (RuntimeError ''Unknown variable: missing''), [''a'' \<mapsto> Series [1, 2, 3]])
   \<and> execute_assignment strtod_digits ''z = a + missing'' [''a'' \<mapsto> [1, 2, 3]]
     = (Some (EvalError ''Unknown variable: missing''), [''a'' \<mapsto> [1, 2, 3]])
   \<and> tsexpr_compile strtod_digits ''z = (a + 2'' = Inl (ParseError ''Mismatched ('')
   \<and> compile_and_execute toy strtod_digits ''z = (a + 2'' [''a'' \<mapsto> Series [1, 2, 3]]
     = (Some (ParseError ''Mismatched (''), [''a'' \<mapsto> Series [1, 2, 3]])
   \<and> execute_assignment strtod_digits ''z = (a + 2'' [''a'' \<mapsto> [1, 2, 3]]
     = (Some (ParseError ''Mismatched (''), [''a'' \<mapsto> [1, 2, 3]])"
proof -
  have 1: "fst (compile_and_execute toy strtod_digits ''z = a + missing''
                  [''a'' \<mapsto> Series [1, 2, 3]])
             = Some (RuntimeError ''Unknown variable: missing'')"
    by (simp add: lexer_eval tsexpr_eval execute_eval)
  have 2: "fst (execute_assignment strtod_digits ''z = a + missing'' [''a'' \<mapsto> [1, 2, 3]])
             = Some (EvalError ''Unknown variable: missing'')"
    by (simp add: lexer_eval ts_expr_eval eval_rpn_eval)
  have 3: "tsexpr_compile strtod_digits ''z = (a + 2'' = Inl (ParseError ''Mismatched ('')"
    by (simp add: lexer_eval tsexpr_eval)
  have 4: "fst (execute_assignment strtod_digits ''z = (a + 2'' [''a'' \<mapsto> [1, 2, 3]])
             = Some (ParseError ''Mismatched ('')"
    by (simp add: lexer_eval ts_expr_eval eval_rpn_eval)
  from 1 2 3 4
    failure_leaves_store_untouched
      [of toy strtod_digits "''z = a + missing''" "[''a'' \<mapsto> Series [1, 2, 3]]"
          "[''a'' \<mapsto> [1, 2, 3]]"]
    failure_leaves_store_untouched
      [of toy strtod_digits "''z = (a + 2''" "[''a'' \<mapsto> Series [1, 2, 3]]"
          "[''a'' \<mapsto> [1, 2, 3]]"]
  show ?thesis
    by (metis prod.collapse)
qed

section \<open>Tokens after a complete expression\<close>

text \<open>
  Claim C6. The header \<open>expr.hpp\<close> documents \<open>compile\<close> as throwing \<open>ParseError\<close> on malformed
  input, but neither parser looks at \<open>expect_operand\<close> when an operand arrives. Both compilers
  accept \<open>z = a b\<close>, where a second operand follows a complete expression with no operator
  between, and return a postfix sequence or program with both operands. In \<open>ts::expr\<close> the
  input then fails in \<open>eval_rpn\<close> with an evaluation error, not a parse error; in \<open>tsexpr\<close> it
  runs to the end and stores \<open>b\<close>. With an operator behind the two operands, \<open>z = a b +\<close> and
  \<open>z = 1 2 +\<close>, nothing fails at all and the sum is stored. A further close parenthesis,
  comma or \<open>=\<close> after the complete expression \<open>a\<close> does make both compilers fail with a parse
  error.
\<close>

theorem trailing_operand_accepted:
  "ts_expr_compile strtod_digits ''z = a b''
     = Inr \<lparr>target = ''z'',
            rpn = [(tok Ident)\<lparr>text' := ''a''\<rparr>, (tok Ident)\<lparr>text' := ''b''\<rparr>]\<rparr>
   \<and> tsexpr_compile strtod_digits ''z = a b''
     = Inr \<lparr>code = [(instr PushVar)\<lparr>itext := ''a''\<rparr>, (instr PushVar)\<lparr>itext := ''b''\<rparr>,
                    (instr Store)\<lparr>itext := ''z''\<rparr>]\<rparr>
   \<and> execute_assignment strtod_digits ''z = a b'' [''a'' \<mapsto> [1], ''b'' \<mapsto> [2]]
     = (Some (EvalError ''Expression did not reduce to a single value''),
        [''a'' \<mapsto> [1], ''b'' \<mapsto> [2]])
   \<and> compile_and_execute toy strtod_digits ''z = a b''
        [''a'' \<mapsto> Series [1], ''b'' \<mapsto> Series [2]]
     = (None, [''a'' \<mapsto> Series [1], ''b'' \<mapsto> Series [2], ''z'' \<mapsto> Series [2]])
   \<and> execute_assignment strtod_digits ''z = a b +'' [''a'' \<mapsto> [1], ''b'' \<mapsto> [2]]
     = (None, [''a'' \<mapsto> [1], ''b'' \<mapsto> [2], ''z'' \<mapsto> [3]])
   \<and> compile_and_execute toy strtod_digits ''z = 1 2 +'' Map.empty
     = (None, [''z'' \<mapsto> Scalar 3])
   \<and> ts_expr_compile strtod_digits ''z = a )'' = Inl (ParseError ''Mismatched )'')
   \<and> tsexpr_compile strtod_digits ''z = a )'' = Inl (ParseError ''Mismatched )'')
   \<and> ts_expr_compile strtod_digits ''z = a ,''
     = Inl (ParseError ''Unexpected , (commas are only valid inside function argument lists)'')
   \<and> tsexpr_compile strtod_digits ''z = a ,''
     = Inl (ParseError ''Comma not within function call'')
   \<and> ts_expr_compile strtod_digits ''z = a = b''
     = Inl (ParseError ''Unexpected = inside expression'')
   \<and> tsexpr_compile strtod_digits ''z = a = b''
     = Inl (ParseError ''Unexpected token in expression'')"
  apply (intro conjI)
             apply (simp add: lexer_eval ts_expr_eval)
            apply (simp add: lexer_eval tsexpr_eval)
           apply (simp add: lexer_eval ts_expr_eval eval_rpn_eval)
          apply (simp add: lexer_eval tsexpr_eval execute_eval)
         apply (simp add: lexer_eval ts_expr_eval eval_rpn_eval)
        apply (simp add: lexer_eval tsexpr_eval execute_eval)
       apply (simp add: lexer_eval ts_expr_eval)
      apply (simp add: lexer_eval tsexpr_eval)
     apply (simp add: lexer_eval ts_expr_eval)
    apply (simp add: lexer_eval tsexpr_eval)
   apply (simp add: lexer_eval ts_expr_eval)
  apply (simp add: lexer_eval tsexpr_eval)
  done

section \<open>Where the two compilers agree\<close>















































section \<open>Where the two executions agree\<close>




text \<open>
  The two ways \<open>sumproduct\<close> of a series and a scalar is computed give different numbers: the
  example backend multiplies the scalar by the sum of the series, and \<open>ts::expr\<close> sums the
  products. (In \<open>double\<close> arithmetic the two round differently.)
\<close>

fun sums_differ :: "('d::{zero,plus,times}) Value \<Rightarrow> 'd Value \<Rightarrow> bool" where
  "sums_differ (Series xs) (Scalar k) = (k * foldl (+) 0 xs \<noteq> sumproduct_ts_s xs k)"
| "sums_differ (Scalar k) (Series ys) = (k * foldl (+) 0 ys \<noteq> sumproduct_s_ts k ys)"
| "sums_differ (Series xs) (Series ys) = False"
| "sums_differ (Scalar x) (Scalar y) = False"



text \<open>Over the real numbers the two computations never differ.\<close>

lemma scaled_sum_left: "foldl (\<lambda>acc x. acc + x * k) (k * s) xs = k * foldl (+) (s :: real) xs"
proof (induction xs arbitrary: s)
  case Nil
  then show ?case by simp
next
  case (Cons a xs)
  have "k * s + a * k = k * (s + a)" by (simp add: algebra_simps)
  with Cons [of "s + a"] show ?case by simp
qed

lemma scaled_sum_right: "foldl (\<lambda>acc x. acc + k * x) (k * s) xs = k * foldl (+) (s :: real) xs"
proof (induction xs arbitrary: s)
  case Nil
  then show ?case by simp
next
  case (Cons a xs)
  have "k * s + k * a = k * (s + a)" by (simp add: algebra_simps)
  with Cons [of "s + a"] show ?case by simp
qed

lemma sums_agree_real: "\<not> sums_differ (a :: real Value) b"
  using scaled_sum_left [of _ 0] scaled_sum_right [of _ 0]
  by (cases a; cases b) (simp_all add: sumproduct_ts_s_def sumproduct_s_ts_def)

















section \<open>The two pipelines side by side\<close>




end
